theory Spec2Isabelle
  imports Complex_Main "HOL-Library.Word"
begin

section \<open>The class template \<open>Vector<T>\<close> of \<open>src/main.cc\<close>\<close>

text \<open>
  A \<open>Vector<T>\<close> owns a buffer \<open>_elem\<close> of \<open>_size\<close> elements and has value semantics
  (deep copy constructor, deep assignment). Its value is modelled by the list of the
  elements \<open>_elem[0], ..., _elem[_size - 1]\<close>, so that \<open>_size\<close> is the length of the list.
  The element type \<open>T\<close> is a type variable; the operators \<open>+ - * /\<close> and the value
  \<open>T()\<close> (zero for every arithmetic type) are those of the type classes named in each
  definition. Every \<open>for (size_t i = 0; i < _size; ++i)\<close> loop is a \<open>fold\<close> over
  \<open>[0..<_size]\<close> whose body is the loop body, acting on the buffer being written.

  Where a statement is about a floating-point \<open>T\<close>, a floating-point value is modelled
  by the real number it denotes and the arithmetic of \<open>T\<close> by the arithmetic of the
  reals: the rounding of results is not modelled. The exception is \<open>operator==\<close>, whose
  result turns on single roundings: for it \<open>double\<close> is modelled exactly.

  The memory side of the class (addresses of buffers, allocation, destructors) is the
  subject of the section on buffers in memory.
\<close>

subsection \<open>Exceptions\<close>

text \<open>
  The code throws \<open>std::invalid_argument\<close> and \<open>std::out_of_range\<close>, each carrying a
  message. The names on the left are the error kinds of the specification.
\<close>

datatype exn = invalid_argument string | out_of_range string

abbreviation IndexOutOfRange :: exn where
  "IndexOutOfRange \<equiv> out_of_range ''Index out of range''"

abbreviation DimensionMismatch :: exn where
  "DimensionMismatch \<equiv> invalid_argument ''Vectors must have the same dimension''"

abbreviation DivideByZero :: exn where
  "DivideByZero \<equiv> invalid_argument ''Cannot divide by zero''"

abbreviation ZeroVector :: exn where
  "ZeroVector \<equiv> invalid_argument ''Cannot normalize zero vector''"

abbreviation UnsupportedType :: exn where
  "UnsupportedType \<equiv> invalid_argument ''Type not supported''"

subsection \<open>Construction\<close>

type_synonym 'a Vector = "'a list"

text \<open>
  \<open>new T[size]\<close>: a buffer of \<open>size\<close> cells. For an arithmetic \<open>T\<close> the cells hold
  indeterminate values; every constructor and operator below writes each cell before any
  cell of that buffer is read, and \<open>0\<close> stands for the indeterminate content.
\<close>

definition new_array :: "nat \<Rightarrow> 'a::zero list" where
  "new_array sz = replicate sz 0"

text \<open>\<open>Vector(size_t size, const T& value = T())\<close>, lines 15-19.\<close>

definition Vector_fill :: "nat \<Rightarrow> 'a::zero \<Rightarrow> 'a Vector" where
  "Vector_fill sz value = fold (\<lambda>i elem. elem[i := value]) [0..<sz] (new_array sz)"

text \<open>\<open>Vector(size_t size)\<close>: the same constructor with the default argument \<open>T()\<close>.\<close>

definition Vector_sized :: "nat \<Rightarrow> 'a::zero Vector" where
  "Vector_sized sz = Vector_fill sz 0"

text \<open>\<open>Vector(const Vector& other)\<close>, lines 130-134.\<close>

definition Vector_copy :: "'a::zero Vector \<Rightarrow> 'a Vector" where
  "Vector_copy other =
     fold (\<lambda>i elem. elem[i := other ! i]) [0..<length other] (new_array (length other))"

definition Get_Dim :: "'a Vector \<Rightarrow> nat" where
  "Get_Dim this = length this"

subsection \<open>Element access\<close>

text \<open>\<open>operator[]\<close>, lines 42-54. The index is a \<open>size_t\<close>, hence a natural number.\<close>

definition subscript :: "'a Vector \<Rightarrow> nat \<Rightarrow> exn + 'a" where
  "subscript this index =
     (if index \<ge> length this then Inl (out_of_range ''Index out of range'')
      else Inr (this ! index))"

subsection \<open>Arithmetic\<close>

text \<open>\<open>operator+\<close>, lines 56-65.\<close>

definition operator_plus :: "'a::{zero,plus} Vector \<Rightarrow> 'a Vector \<Rightarrow> exn + 'a Vector" where
  "operator_plus this other =
     (if length this \<noteq> length other
      then Inl (invalid_argument ''Vectors must have the same dimension'')
      else Inr (fold (\<lambda>i result. result[i := this ! i + other ! i])
                  [0..<length this] (Vector_sized (length this))))"

text \<open>\<open>operator-\<close>, lines 67-76.\<close>

definition operator_minus :: "'a::{zero,minus} Vector \<Rightarrow> 'a Vector \<Rightarrow> exn + 'a Vector" where
  "operator_minus this other =
     (if length this \<noteq> length other
      then Inl (invalid_argument ''Vectors must have the same dimension'')
      else Inr (fold (\<lambda>i result. result[i := this ! i - other ! i])
                  [0..<length this] (Vector_sized (length this))))"

text \<open>\<open>operator*(const Vector<T>&)\<close>, lines 78-87: the elementwise product.\<close>

definition operator_times :: "'a::{zero,times} Vector \<Rightarrow> 'a Vector \<Rightarrow> exn + 'a Vector" where
  "operator_times this other =
     (if length this \<noteq> length other
      then Inl (invalid_argument ''Vectors must have the same dimension'')
      else Inr (fold (\<lambda>i result. result[i := this ! i * other ! i])
                  [0..<length this] (Vector_sized (length this))))"

text \<open>
  \<open>operator/(const T& scalar)\<close>, lines 119-128. The \<open>/\<close> of \<open>T\<close> is the \<open>divide\<close> of
  the element type (written \<open>/\<close> at a field such as the reals).
\<close>

definition operator_div :: "'a::{zero,divide} Vector \<Rightarrow> 'a \<Rightarrow> exn + 'a Vector" where
  "operator_div this scalar =
     (if scalar = 0 then Inl (invalid_argument ''Cannot divide by zero'')
      else Inr (fold (\<lambda>i result. result[i := divide (this ! i) scalar])
                  [0..<length this] (Vector_sized (length this))))"

subsection \<open>Random construction\<close>

text \<open>
  \<open>Vector(size_t size, T low_bound, T up_bound)\<close>, lines 21-40. The two
  \<open>if constexpr\<close> tests classify \<open>T\<close>; \<open>scalar_kind\<close> is their outcome.
\<close>

datatype scalar_kind = Integral | FloatingPoint | Unsupported

text \<open>
  The standard library is outside the repository, so the random source is a parameter
  of the constructor: \<open>gen\<close> is the state of the \<open>std::mt19937\<close> after seeding from
  \<open>std::random_device\<close>, and \<open>distribution low_bound up_bound\<close> is the call operator of the
  distribution that the live branch constructs from the two bounds
  (\<open>std::uniform_int_distribution<T>\<close> or \<open>std::uniform_real_distribution<T>\<close>); one
  call \<open>dist(gen)\<close> returns a value and advances the generator.

  The buffer is allocated by the member initialiser before the body runs, also when the
  body throws.
\<close>

definition Vector_random ::
  "scalar_kind \<Rightarrow> ('a \<Rightarrow> 'a \<Rightarrow> 'g \<Rightarrow> 'a \<times> 'g) \<Rightarrow> 'g \<Rightarrow> nat \<Rightarrow> 'a::zero \<Rightarrow> 'a \<Rightarrow> exn + 'a Vector"
where
  "Vector_random kind distribution gen sz low_bound up_bound =
     (if kind = Integral then
        Inr (fst (fold (\<lambda>i (elem, gen).
                     case distribution low_bound up_bound gen of (x, gen') \<Rightarrow> (elem[i := x], gen'))
                   [0..<sz] (new_array sz, gen)))
      else if kind = FloatingPoint then
        Inr (fst (fold (\<lambda>i (elem, gen).
                     case distribution low_bound up_bound gen of (x, gen') \<Rightarrow> (elem[i := x], gen'))
                   [0..<sz] (new_array sz, gen)))
      else Inl (invalid_argument ''Type not supported''))"

text \<open>
  The contract of both distributions in the C++ standard: constructed from bounds
  \<open>a \<le> b\<close>, every call returns a value between \<open>a\<close> and \<open>b\<close> (the integer distribution
  reaches both ends, the real one stays below \<open>b\<close>).
\<close>

definition within_bounds :: "('a::ord \<Rightarrow> 'a \<Rightarrow> 'g \<Rightarrow> 'a \<times> 'g) \<Rightarrow> bool" where
  "within_bounds distribution \<longleftrightarrow>
     (\<forall>a b g. a \<le> b \<longrightarrow> a \<le> fst (distribution a b g) \<and> fst (distribution a b g) \<le> b)"

subsection \<open>Equality\<close>

text \<open>
  \<open>operator==\<close>, lines 157-170, at a floating-point \<open>T\<close> with the arithmetic of the
  reals: a floating-point value is the real number it denotes, and \<open>-\<close> and \<open>std::abs\<close>
  are the operations of the reals. (The section on the element type \<open>double\<close> gives the
  operator with the arithmetic of the machine.) \<open>eps\<close> is the \<open>double\<close> that the literal
  \<open>1.0E-5\<close> denotes, which is \<open>0x1.4f8b588e368f1p-17\<close>, slightly above \<open>1 / 100000\<close>.
\<close>

definition eps :: real where
  "eps = 5902958103587057 / 2 ^ 69"

text \<open>
  \<open>_size - other._size\<close> is a subtraction of two \<open>size_t\<close>, taken here as 64 bits
  wide: it wraps around. \<open>std::abs\<close> of the unsigned difference is the difference (a
  library that accepts the call on an unsigned argument converts it to \<open>double\<close>), and
  the comparison with \<open>eps\<close> is made on its numeric value.
\<close>

definition size_difference :: "nat \<Rightarrow> nat \<Rightarrow> 64 word" where
  "size_difference n m = word_of_nat n - word_of_nat m"

text \<open>The loop of lines 163-167, from index \<open>i\<close> on; it returns at the first mismatch.\<close>

function elements_match :: "real Vector \<Rightarrow> real Vector \<Rightarrow> nat \<Rightarrow> bool" where
  "elements_match this other i =
     (if i < length this
      then (if \<bar>this ! i - other ! i\<bar> > eps then False
            else elements_match this other (Suc i))
      else True)"
  by pat_completeness auto
termination
  by (relation "measure (\<lambda>(this, other, i). length this - i)") auto

declare elements_match.simps [simp del]

definition operator_eq :: "real Vector \<Rightarrow> real Vector \<Rightarrow> bool" where
  "operator_eq this other =
     (if real (unat (size_difference (length this) (length other))) > eps then False
      else elements_match this other 0)"

text \<open>\<open>operator!=\<close>, line 172.\<close>

definition operator_neq :: "real Vector \<Rightarrow> real Vector \<Rightarrow> bool" where
  "operator_neq this other = (\<not> operator_eq this other)"

subsection \<open>Normalisation\<close>

text \<open>
  \<open>normalize()\<close>, lines 193-209. The method works in place, so the model returns the
  outcome (thrown exception or normal return) together with the value of \<open>*this\<close>
  afterwards. \<open>sqrtT\<close> is \<open>std::sqrt\<close> with its result converted to \<open>T\<close>.
\<close>

definition normalize ::
  "('a \<Rightarrow> 'a) \<Rightarrow> 'a::{zero,plus,times,divide} Vector \<Rightarrow> (exn + unit) \<times> 'a Vector" where
  "normalize sqrtT this =
     (let length_squared =
            fold (\<lambda>i length_squared. length_squared + this ! i * this ! i)
              [0..<length this] 0
      in if length_squared = 0
         then (Inl (invalid_argument ''Cannot normalize zero vector''), this)
         else (let length' = sqrtT length_squared
               in (Inr (),
                   fold (\<lambda>i elem. elem[i := divide (elem ! i) length'])
                     [0..<length this] this)))"

subsection \<open>\<open>find_pu_vector\<close>\<close>

text \<open>
  Lines 229-240 of \<open>find_pu_vector\<close>: the value of \<open>b_orth\<close> before it is normalised.
  In \<open>(b * a_norm) * a_norm\<close> both products have a \<open>Vector<T>\<close> as right operand, so
  overload resolution selects the elementwise \<open>operator*(const Vector<T>&)\<close> twice.
\<close>

definition difference ::
  "scalar_kind \<Rightarrow> ('a \<Rightarrow> 'a) \<Rightarrow> ('a \<Rightarrow> 'a \<Rightarrow> 'g \<Rightarrow> 'a \<times> 'g) \<Rightarrow> 'g \<Rightarrow>
   'a::{zero,one,uminus,plus,minus,times,divide} Vector \<Rightarrow> exn + 'a Vector" where
  "difference kind sqrtT distribution gen a =
     (case normalize sqrtT (Vector_copy a) of
        (Inl e, a_norm) \<Rightarrow> Inl e
      | (Inr u, a_norm) \<Rightarrow>
          (case Vector_random kind distribution gen (Get_Dim a) (- 1) 1 of
             Inl e \<Rightarrow> Inl e
           | Inr b \<Rightarrow>
               (case operator_times b a_norm of
                  Inl e \<Rightarrow> Inl e
                | Inr product \<Rightarrow>
                    (case operator_times product a_norm of
                       Inl e \<Rightarrow> Inl e
                     | Inr project \<Rightarrow> operator_minus b project))))"

text \<open>\<open>find_pu_vector\<close>, lines 229-244: the difference, normalised and returned.\<close>

definition find_pu_vector ::
  "scalar_kind \<Rightarrow> ('a \<Rightarrow> 'a) \<Rightarrow> ('a \<Rightarrow> 'a \<Rightarrow> 'g \<Rightarrow> 'a \<times> 'g) \<Rightarrow> 'g \<Rightarrow>
   'a::{zero,one,uminus,plus,minus,times,divide} Vector \<Rightarrow> exn + 'a Vector" where
  "find_pu_vector kind sqrtT distribution gen a =
     (case difference kind sqrtT distribution gen a of
        Inl e \<Rightarrow> Inl e
      | Inr b_orth \<Rightarrow>
          (case normalize sqrtT b_orth of
             (Inl e, b_orth) \<Rightarrow> Inl e
           | (Inr u, b_orth) \<Rightarrow> Inr b_orth))"

text \<open>The measures in which the specification states the result of \<open>find_pu_vector\<close>.\<close>

definition sum_of_squares :: "'a::{comm_monoid_add,times} Vector \<Rightarrow> 'a" where
  "sum_of_squares v = (\<Sum>x\<leftarrow>v. x * x)"

definition euclidean_norm :: "real Vector \<Rightarrow> real" where
  "euclidean_norm v = sqrt (sum_of_squares v)"

definition dot :: "real Vector \<Rightarrow> real Vector \<Rightarrow> real" where
  "dot u v = (\<Sum>(x, y)\<leftarrow>zip u v. x * y)"

section \<open>Buffers in memory\<close>

text \<open>
  Where a claim is about what a function leaves untouched, the buffers are placed in a
  store. A store is the sequence of the buffers allocated so far: the address of a
  buffer is its position, a live buffer is \<open>Some\<close> of its contents, and a buffer
  released by \<open>delete[]\<close> is \<open>None\<close>. A \<open>Vector<T>\<close> object is then the pair of its
  fields, the pointer \<open>_elem\<close> (\<open>None\<close> for \<open>nullptr\<close>, else the address of a buffer) and
  the number \<open>_size\<close>.
\<close>

type_synonym 'a store = "'a list option list"

record Vector_object =
  v_elem :: "nat option"
  v_size :: nat

text \<open>\<open>Vector()\<close>, line 13.\<close>

definition Vector_default :: Vector_object where
  "Vector_default = \<lparr>v_elem = None, v_size = 0\<rparr>"

text \<open>
  \<open>new T[n]\<close> together with the loop that fills the new buffer: the buffer gets the
  next address, which no existing object holds (the model does not reuse the addresses
  of released buffers).
\<close>

definition new_buffer :: "'a list \<Rightarrow> 'a store \<Rightarrow> nat option \<times> 'a store" where
  "new_buffer buf h = (Some (length h), h @ [Some buf])"

text \<open>\<open>delete[]\<close>: nothing happens on \<open>nullptr\<close>.\<close>

definition delete_buffer :: "nat option \<Rightarrow> 'a store \<Rightarrow> 'a store" where
  "delete_buffer ptr h = (case ptr of None \<Rightarrow> h | Some p \<Rightarrow> h[p := None])"

text \<open>
  The value of an object: the contents of the buffer it points to, and the empty vector
  for an object without a buffer.
\<close>

definition content :: "'a store \<Rightarrow> Vector_object \<Rightarrow> 'a Vector" where
  "content h this = (case v_elem this of None \<Rightarrow> [] | Some p \<Rightarrow> the (h ! p))"

text \<open>Writing new contents to the buffer of an object.\<close>

definition write_content :: "Vector_object \<Rightarrow> 'a Vector \<Rightarrow> 'a store \<Rightarrow> 'a store" where
  "write_content this buf h = (case v_elem this of None \<Rightarrow> h | Some p \<Rightarrow> h[p := Some buf])"

text \<open>\<open>~Vector()\<close>, lines 136-138.\<close>

definition destructor :: "Vector_object \<Rightarrow> 'a store \<Rightarrow> 'a store" where
  "destructor this h = delete_buffer (v_elem this) h"

text \<open>The copy constructor: a new buffer, filled from the buffer of \<open>other\<close>.\<close>

definition Vector_copy_mem :: "Vector_object \<Rightarrow> 'a::zero store \<Rightarrow> Vector_object \<times> 'a store" where
  "Vector_copy_mem other h =
     (case new_buffer (Vector_copy (content h other)) h of
        (p, h') \<Rightarrow> (\<lparr>v_elem = p, v_size = v_size other\<rparr>, h'))"

text \<open>
  The random constructor: the member initialiser allocates the buffer before the body
  runs, so the buffer exists (and is never released) when the body throws.
\<close>

definition Vector_random_mem ::
  "scalar_kind \<Rightarrow> ('a \<Rightarrow> 'a \<Rightarrow> 'g \<Rightarrow> 'a \<times> 'g) \<Rightarrow> 'g \<Rightarrow> nat \<Rightarrow> 'a::zero \<Rightarrow> 'a \<Rightarrow> 'a store \<Rightarrow>
   (exn + Vector_object) \<times> 'a store" where
  "Vector_random_mem kind distribution gen sz low_bound up_bound h =
     (case Vector_random kind distribution gen sz low_bound up_bound of
        Inl e \<Rightarrow> (Inl e, snd (new_buffer (new_array sz) h))
      | Inr buf \<Rightarrow>
          (case new_buffer buf h of
             (p, h') \<Rightarrow> (Inr \<lparr>v_elem = p, v_size = sz\<rparr>, h')))"

text \<open>
  The operators that return a new vector: the test that may throw comes first, and only
  then is the buffer of \<open>result\<close> allocated; \<open>result\<close> is returned to the caller.
\<close>

definition operator_plus_mem ::
  "Vector_object \<Rightarrow> Vector_object \<Rightarrow> 'a::{zero,plus} store \<Rightarrow> (exn + Vector_object) \<times> 'a store"
where
  "operator_plus_mem this other h =
     (case operator_plus (content h this) (content h other) of
        Inl e \<Rightarrow> (Inl e, h)
      | Inr buf \<Rightarrow>
          (case new_buffer buf h of
             (p, h') \<Rightarrow> (Inr \<lparr>v_elem = p, v_size = v_size this\<rparr>, h')))"

definition operator_div_mem ::
  "Vector_object \<Rightarrow> 'a \<Rightarrow> 'a::{zero,divide} store \<Rightarrow> (exn + Vector_object) \<times> 'a store"
where
  "operator_div_mem this scalar h =
     (case operator_div (content h this) scalar of
        Inl e \<Rightarrow> (Inl e, h)
      | Inr buf \<Rightarrow>
          (case new_buffer buf h of
             (p, h') \<Rightarrow> (Inr \<lparr>v_elem = p, v_size = v_size this\<rparr>, h')))"

definition operator_times_mem ::
  "Vector_object \<Rightarrow> Vector_object \<Rightarrow> 'a::{zero,times} store \<Rightarrow> (exn + Vector_object) \<times> 'a store"
where
  "operator_times_mem this other h =
     (case operator_times (content h this) (content h other) of
        Inl e \<Rightarrow> (Inl e, h)
      | Inr buf \<Rightarrow>
          (case new_buffer buf h of
             (p, h') \<Rightarrow> (Inr \<lparr>v_elem = p, v_size = v_size this\<rparr>, h')))"

definition operator_minus_mem ::
  "Vector_object \<Rightarrow> Vector_object \<Rightarrow> 'a::{zero,minus} store \<Rightarrow> (exn + Vector_object) \<times> 'a store"
where
  "operator_minus_mem this other h =
     (case operator_minus (content h this) (content h other) of
        Inl e \<Rightarrow> (Inl e, h)
      | Inr buf \<Rightarrow>
          (case new_buffer buf h of
             (p, h') \<Rightarrow> (Inr \<lparr>v_elem = p, v_size = v_size this\<rparr>, h')))"

text \<open>\<open>normalize()\<close> writes to the buffer of \<open>*this\<close>, and to no other.\<close>

definition normalize_mem ::
  "('a \<Rightarrow> 'a) \<Rightarrow> Vector_object \<Rightarrow> 'a::{zero,plus,times,divide} store \<Rightarrow> (exn + unit) \<times> 'a store"
where
  "normalize_mem sqrtT this h =
     (case normalize sqrtT (content h this) of
        (outcome, buf) \<Rightarrow> (outcome, write_content this buf h))"

text \<open>
  \<open>find_pu_vector\<close>, lines 229-244, with its objects in the store. The argument \<open>a\<close>
  is a reference to an object of the caller. The locals \<open>a_norm\<close>, \<open>b\<close>, \<open>project\<close>
  and \<open>b_orth\<close> and the temporary \<open>b * a_norm\<close> are constructed in this order; the
  temporary is destroyed at the end of its full expression, and the locals when the
  function is left, by \<open>return\<close> or by an exception, in the reverse order of their
  construction. \<open>b_orth\<close> is handed to the caller (the copy of a returned local is
  elided, here and in the operators).
\<close>

definition find_pu_vector_mem ::
  "scalar_kind \<Rightarrow> ('a \<Rightarrow> 'a) \<Rightarrow> ('a \<Rightarrow> 'a \<Rightarrow> 'g \<Rightarrow> 'a \<times> 'g) \<Rightarrow> 'g \<Rightarrow> Vector_object \<Rightarrow>
   'a::{zero,one,uminus,plus,minus,times,divide} store \<Rightarrow> (exn + Vector_object) \<times> 'a store"
where
  "find_pu_vector_mem kind sqrtT distribution gen a h0 =
     (case Vector_copy_mem a h0 of (a_norm, h1) \<Rightarrow>
      case normalize_mem sqrtT a_norm h1 of
        (Inl e, h2) \<Rightarrow> (Inl e, destructor a_norm h2)
      | (Inr u, h2) \<Rightarrow>
     (case Vector_random_mem kind distribution gen (v_size a) (- 1) 1 h2 of
        (Inl e, h3) \<Rightarrow> (Inl e, destructor a_norm h3)
      | (Inr b, h3) \<Rightarrow>
     (case operator_times_mem b a_norm h3 of
        (Inl e, h4) \<Rightarrow> (Inl e, destructor a_norm (destructor b h4))
      | (Inr product, h4) \<Rightarrow>
     (case operator_times_mem product a_norm h4 of
        (Inl e, h5) \<Rightarrow> (Inl e, destructor a_norm (destructor b (destructor product h5)))
      | (Inr project, h5) \<Rightarrow>
     (case operator_minus_mem b project (destructor product h5) of
        (Inl e, h6) \<Rightarrow> (Inl e, destructor a_norm (destructor b (destructor project h6)))
      | (Inr b_orth, h6) \<Rightarrow>
     (case normalize_mem sqrtT b_orth h6 of
        (Inl e, h7) \<Rightarrow>
          (Inl e, destructor a_norm (destructor b (destructor project (destructor b_orth h7))))
      | (Inr u, h7) \<Rightarrow>
          (Inr b_orth, destructor a_norm (destructor b (destructor project h7)))))))))"

text \<open>
  The invariant of the class: the buffer of the object is live in the store and has the
  size the object records; an object without a buffer has size 0.
\<close>

definition owns :: "'a store \<Rightarrow> Vector_object \<Rightarrow> bool" where
  "owns h this \<longleftrightarrow>
     (case v_elem this of
        None \<Rightarrow> v_size this = 0
      | Some p \<Rightarrow>
          p < length h \<and> (case h ! p of None \<Rightarrow> False | Some buf \<Rightarrow> length buf = v_size this))"

section \<open>The element type \<open>double\<close>\<close>

text \<open>
  \<open>operator==\<close> compares the difference of two elements as the machine computes it.
  For \<open>T = double\<close> (IEEE 754 binary64, rounding to nearest, ties to even) the values
  and the three operations of line 164 are modelled exactly. \<open>Finite m e\<close> is the
  number \<open>m * 2^e\<close>; a \<open>double\<close> has such a form with \<open>\<bar>m\<bar> < 2^53\<close> and
  \<open>-1074 \<le> e \<le> 971\<close>. \<open>Infinity True\<close> is \<open>-inf\<close>, \<open>Infinity False\<close> is \<open>+inf\<close>. The two
  zeros are not told apart: no operation below distinguishes them.
\<close>

datatype double = Finite int int | Infinity bool | NaN

text \<open>The real number that a finite \<open>double\<close> denotes.\<close>

definition value_of :: "int \<Rightarrow> int \<Rightarrow> real" where
  "value_of m e = (if 0 \<le> e then of_int m * 2 ^ nat e else of_int m / 2 ^ nat (- e))"

text \<open>The number of binary digits of a natural number.\<close>

function bit_length :: "nat \<Rightarrow> nat" where
  "bit_length n = (if n = 0 then 0 else Suc (bit_length (n div 2)))"
  by pat_completeness auto
termination
  by (relation "measure id") auto

declare bit_length.simps [simp del]

text \<open>
  Dropping the last \<open>s\<close> binary digits of \<open>n\<close>, to nearest and with ties to even.
\<close>

definition round_nearest_even :: "nat \<Rightarrow> nat \<Rightarrow> nat" where
  "round_nearest_even n s =
     (let q = n div 2 ^ s; r = n mod 2 ^ s
      in if 2 * r > 2 ^ s \<or> (2 * r = 2 ^ s \<and> odd q) then q + 1 else q)"

text \<open>
  The \<open>double\<close> nearest to the exact result \<open>M * 2^e\<close> of an operation: the magnitude
  keeps 53 digits, and a result of \<open>2^1024\<close> or more overflows to an infinity. The
  exact difference of two \<open>double\<close>s is a multiple of \<open>2^(-1074)\<close>, so rounding never has
  to go below the least exponent.
\<close>

definition round_to_double :: "int \<Rightarrow> int \<Rightarrow> double" where
  "round_to_double M e =
     (let n = nat \<bar>M\<bar>;
          s = bit_length n - 53;
          q = round_nearest_even n s
      in if int (bit_length q) + (e + int s) > 1024 then Infinity (M < 0)
         else Finite (sgn M * int q) (e + int s))"

text \<open>\<open>x - y\<close> on \<open>double\<close>.\<close>

fun double_minus :: "double \<Rightarrow> double \<Rightarrow> double" where
  "double_minus NaN y = NaN"
| "double_minus x NaN = NaN"
| "double_minus (Infinity s) (Infinity t) = (if s = t then NaN else Infinity s)"
| "double_minus (Infinity s) (Finite m e) = Infinity s"
| "double_minus (Finite m e) (Infinity t) = Infinity (\<not> t)"
| "double_minus (Finite m1 e1) (Finite m2 e2) =
     (let e = min e1 e2
      in round_to_double (m1 * 2 ^ nat (e1 - e) - m2 * 2 ^ nat (e2 - e)) e)"

text \<open>\<open>std::abs(x)\<close> on \<open>double\<close>.\<close>

fun double_abs :: "double \<Rightarrow> double" where
  "double_abs NaN = NaN"
| "double_abs (Infinity s) = Infinity False"
| "double_abs (Finite m e) = Finite \<bar>m\<bar> e"

text \<open>\<open>x > y\<close> on \<open>double\<close>: false as soon as one side is a NaN.\<close>

fun double_greater :: "double \<Rightarrow> double \<Rightarrow> bool" where
  "double_greater NaN y = False"
| "double_greater x NaN = False"
| "double_greater (Infinity s) (Infinity t) = (\<not> s \<and> t)"
| "double_greater (Infinity s) (Finite m e) = (\<not> s)"
| "double_greater (Finite m e) (Infinity t) = t"
| "double_greater (Finite m1 e1) (Finite m2 e2) =
     (let e = min e1 e2
      in m1 * 2 ^ nat (e1 - e) > m2 * 2 ^ nat (e2 - e))"

text \<open>The \<open>double\<close> that the literal \<open>1.0E-5\<close> denotes, \<open>0x1.4f8b588e368f1p-17\<close>.\<close>

definition eps_double :: double where
  "eps_double = Finite 5902958103587057 (- 69)"

text \<open>\<open>operator==\<close>, lines 157-170, at \<open>T = double\<close>; the loop from index \<open>i\<close> on.\<close>

function elements_match_double :: "double Vector \<Rightarrow> double Vector \<Rightarrow> nat \<Rightarrow> bool" where
  "elements_match_double this other i =
     (if i < length this
      then (if double_greater (double_abs (double_minus (this ! i) (other ! i))) eps_double
            then False
            else elements_match_double this other (Suc i))
      else True)"
  by pat_completeness auto
termination
  by (relation "measure (\<lambda>(this, other, i). length this - i)") auto

declare elements_match_double.simps [simp del]

definition operator_eq_double :: "double Vector \<Rightarrow> double Vector \<Rightarrow> bool" where
  "operator_eq_double this other =
     (if real (unat (size_difference (length this) (length other))) > eps then False
      else elements_match_double this other 0)"

text \<open>\<open>operator!=\<close>, line 172, at \<open>T = double\<close>.\<close>

definition operator_neq_double :: "double Vector \<Rightarrow> double Vector \<Rightarrow> bool" where
  "operator_neq_double this other = (\<not> operator_eq_double this other)"

section \<open>Instances of the parameters\<close>

text \<open>
  \<open>std::sqrt\<close> at \<open>T = int\<close>, for an argument that is not negative: the root is
  computed in \<open>double\<close> and the conversion of the result to \<open>int\<close> drops its fraction.
\<close>

definition sqrt_int :: "int \<Rightarrow> int" where
  "sqrt_int x = \<lfloor>sqrt (of_int x)\<rfloor>"

text \<open>
  A random source that replays a recorded sequence of draws: the state of the generator
  is the list of the draws still to come.
\<close>

definition replay :: "'a \<Rightarrow> 'a \<Rightarrow> 'a list \<Rightarrow> 'a \<times> 'a list" where
  "replay low_bound up_bound gen = (hd gen, tl gen)"

section \<open>Properties of the loops\<close>

subsection \<open>Writing loops\<close>

text \<open>A loop that writes \<open>f i\<close> to cell \<open>i\<close> of a buffer, for every index of the buffer.\<close>

lemma fold_write_prefix:
  "k \<le> length r \<Longrightarrow>
   fold (\<lambda>i r. r[i := f i]) [0..<k] r = map f [0..<k] @ drop k r"
proof (induction k)
  case 0
  then show ?case by simp
next
  case (Suc k)
  then have k: "k < length r" by simp
  have "fold (\<lambda>i r. r[i := f i]) [0..<Suc k] r = (map f [0..<k] @ drop k r)[k := f k]"
    using Suc by simp
  also have "\<dots> = map f [0..<k] @ (drop k r)[0 := f k]"
    by (simp add: list_update_append)
  also have "drop k r = r ! k # drop (Suc k) r"
    using k by (simp add: Cons_nth_drop_Suc)
  finally show ?case by simp
qed

lemma fold_write_all:
  "length r = n \<Longrightarrow> fold (\<lambda>i r. r[i := f i]) [0..<n] r = map f [0..<n]"
  using fold_write_prefix [of n r f] by simp

lemma Vector_fill_eq: "Vector_fill n v = replicate n v"
  by (simp add: Vector_fill_def new_array_def fold_write_all map_replicate_const)

lemma length_Vector_sized: "length (Vector_sized n) = n"
  by (simp add: Vector_sized_def Vector_fill_eq)

lemma Vector_copy_eq: "Vector_copy other = other"
  by (simp add: Vector_copy_def new_array_def fold_write_all map_nth)

lemma operator_plus_eq:
  "length a = length b \<Longrightarrow>
   operator_plus a b = Inr (map (\<lambda>i. a ! i + b ! i) [0..<length a])"
  by (simp add: operator_plus_def fold_write_all length_Vector_sized)

lemma operator_minus_eq:
  "length a = length b \<Longrightarrow>
   operator_minus a b = Inr (map (\<lambda>i. a ! i - b ! i) [0..<length a])"
  by (simp add: operator_minus_def fold_write_all length_Vector_sized)

lemma operator_times_eq:
  "length a = length b \<Longrightarrow>
   operator_times a b = Inr (map (\<lambda>i. a ! i * b ! i) [0..<length a])"
  by (simp add: operator_times_def fold_write_all length_Vector_sized)

lemma operator_div_eq:
  "s \<noteq> 0 \<Longrightarrow> operator_div v s = Inr (map (\<lambda>x. divide x s) v)"
proof -
  assume s: "s \<noteq> 0"
  have "map (\<lambda>i. divide (v ! i) s) [0..<length v] = map (\<lambda>x. divide x s) (map ((!) v) [0..<length v])"
    by simp
  also have "\<dots> = map (\<lambda>x. divide x s) v"
    by (simp only: map_nth)
  finally show ?thesis
    using s by (simp add: operator_div_def fold_write_all length_Vector_sized)
qed

subsection \<open>Accumulating and updating loops\<close>

lemma fold_accumulate_prefix:
  fixes v :: "'a::{comm_monoid_add,times} list"
  shows "k \<le> length v \<Longrightarrow>
   fold (\<lambda>i acc. acc + v ! i * v ! i) [0..<k] a = a + (\<Sum>x\<leftarrow>take k v. x * x)"
proof (induction k)
  case 0
  then show ?case by simp
next
  case (Suc k)
  then have "take (Suc k) v = take k v @ [v ! k]"
    by (simp add: take_Suc_conv_app_nth)
  with Suc show ?case
    by (simp add: add.assoc)
qed

lemma fold_accumulate_all:
  fixes v :: "'a::{comm_monoid_add,times} list"
  shows "fold (\<lambda>i acc. acc + v ! i * v ! i) [0..<length v] 0 = sum_of_squares v"
  using fold_accumulate_prefix [of "length v" v 0] by (simp add: sum_of_squares_def)

lemma fold_update_prefix:
  "k \<le> length e \<Longrightarrow>
   fold (\<lambda>i e. e[i := g (e ! i)]) [0..<k] e = map g (take k e) @ drop k e"
proof (induction k)
  case 0
  then show ?case by simp
next
  case (Suc k)
  then have k: "k < length e" by simp
  have "fold (\<lambda>i e. e[i := g (e ! i)]) [0..<Suc k] e
        = (map g (take k e) @ drop k e)[k := g ((map g (take k e) @ drop k e) ! k)]"
    using Suc by simp
  also have "(map g (take k e) @ drop k e) ! k = e ! k"
    using k by (simp add: nth_append)
  also have "(map g (take k e) @ drop k e)[k := g (e ! k)]
        = map g (take k e) @ (drop k e)[0 := g (e ! k)]"
    using k by (simp add: list_update_append)
  also have "drop k e = e ! k # drop (Suc k) e"
    using k by (simp add: Cons_nth_drop_Suc)
  finally show ?case
    using k by (simp add: take_Suc_conv_app_nth)
qed

lemma fold_update_all:
  "fold (\<lambda>i e. e[i := g (e ! i)]) [0..<length e] e = map g e"
  using fold_update_prefix [of "length e" e g] by simp

lemma normalize_eq:
  fixes v :: "'a::{comm_monoid_add,times,divide} Vector"
  shows "normalize sqrtT v =
     (if sum_of_squares v = 0 then (Inl ZeroVector, v)
      else (Inr (), map (\<lambda>x. divide x (sqrtT (sum_of_squares v))) v))"
  using fold_update_all [where g = "\<lambda>x. divide x (sqrtT (sum_of_squares v))" and e = v]
  by (simp add: normalize_def fold_accumulate_all Let_def)

subsection \<open>The drawing loop\<close>

lemma fold_draw_length:
  "length (fst (fold (\<lambda>i (elem, gen).
                     case distribution low up gen of (x, gen') \<Rightarrow> (elem[i := x], gen'))
                   [0..<k] (r, g))) = length r"
proof (induction k)
  case 0
  then show ?case by simp
next
  case (Suc k)
  then show ?case
    by (simp add: case_prod_beta)
qed

lemma Vector_random_length:
  "Vector_random kind distribution gen n low up = Inr v \<Longrightarrow> length v = n"
  by (cases kind) (auto simp: Vector_random_def fold_draw_length new_array_def)

lemma fold_draw_prefix:
  assumes "within_bounds distribution" and "low \<le> up" and "k \<le> length r"
  shows "length (fst (fold (\<lambda>i (elem, gen).
                     case distribution low up gen of (x, gen') \<Rightarrow> (elem[i := x], gen'))
                   [0..<k] (r, g))) = length r
       \<and> (\<forall>j<k. low \<le> fst (fold (\<lambda>i (elem, gen).
                     case distribution low up gen of (x, gen') \<Rightarrow> (elem[i := x], gen'))
                   [0..<k] (r, g)) ! j
              \<and> fst (fold (\<lambda>i (elem, gen).
                     case distribution low up gen of (x, gen') \<Rightarrow> (elem[i := x], gen'))
                   [0..<k] (r, g)) ! j \<le> up)"
  using assms(3)
proof (induction k)
  case 0
  then show ?case by simp
next
  case (Suc k)
  let ?step = "\<lambda>i (elem, gen).
                 case distribution low up gen of (x, gen') \<Rightarrow> (elem[i := x], gen')"
  obtain e g' where s: "fold ?step [0..<k] (r, g) = (e, g')"
    by (cases "fold ?step [0..<k] (r, g)")
  obtain x g'' where d: "distribution low up g' = (x, g'')"
    by (cases "distribution low up g'")
  have x: "low \<le> x \<and> x \<le> up"
    using assms(1,2) d unfolding within_bounds_def by (metis fst_conv)
  have ih: "length e = length r" "\<forall>j<k. low \<le> e ! j \<and> e ! j \<le> up"
    using Suc s by simp_all
  have "fold ?step [0..<Suc k] (r, g) = (e[k := x], g'')"
    using s d by simp
  moreover have "length (e[k := x]) = length r"
    using ih by simp
  moreover have "\<forall>j<Suc k. low \<le> e[k := x] ! j \<and> e[k := x] ! j \<le> up"
    using ih x Suc.prems by (auto simp: less_Suc_eq nth_list_update)
  ultimately show ?case by simp
qed

lemma Vector_random_eq:
  "kind \<noteq> Unsupported \<Longrightarrow>
   Vector_random kind distribution gen n low up =
     Inr (fst (fold (\<lambda>i (elem, gen).
                     case distribution low up gen of (x, gen') \<Rightarrow> (elem[i := x], gen'))
                   [0..<n] (new_array n, gen)))"
  by (cases kind) (simp_all add: Vector_random_def)

subsection \<open>Equality\<close>

lemma eps_bounds: "0 < eps" "eps < 1"
  by (simp_all add: eps_def)

lemma size_check_iff: "real (unat w) > eps \<longleftrightarrow> w \<noteq> 0"
proof
  assume "real (unat w) > eps"
  then show "w \<noteq> 0" using eps_bounds by auto
next
  assume "w \<noteq> 0"
  then have "1 \<le> unat w" by (simp add: Suc_le_eq unat_gt_0)
  then have "real 1 \<le> real (unat w)" by (rule of_nat_mono)
  then show "real (unat w) > eps" using eps_bounds by linarith
qed

lemma size_check_unsigned: "eps < (unsigned w :: real) \<longleftrightarrow> w \<noteq> 0"
  using size_check_iff [of w] by simp

lemma size_difference_zero:
  "n < 2 ^ 64 \<Longrightarrow> m < 2 ^ 64 \<Longrightarrow> size_difference n m = 0 \<longleftrightarrow> n = m"
  unfolding size_difference_def
  by (auto simp: word_of_nat_eq_iff take_bit_nat_eq_self)

lemma elements_match_iff:
  "elements_match a b i \<longleftrightarrow> (\<forall>j. i \<le> j \<and> j < length a \<longrightarrow> \<bar>a ! j - b ! j\<bar> \<le> eps)"
proof (induction a b i rule: elements_match.induct)
  case (1 this other i)
  show ?case
  proof (cases "i < length this")
    case False
    then show ?thesis by (subst elements_match.simps) simp
  next
    case True
    show ?thesis
    proof (cases "\<bar>this ! i - other ! i\<bar> > eps")
      case gt: True
      then have "\<not> elements_match this other i"
        using True by (subst elements_match.simps) simp
      moreover have "\<not> (\<forall>j. i \<le> j \<and> j < length this \<longrightarrow> \<bar>this ! j - other ! j\<bar> \<le> eps)"
        using True gt by (auto intro!: exI [of _ i])
      ultimately show ?thesis by blast
    next
      case le: False
      then have "elements_match this other i = elements_match this other (Suc i)"
        using True by (subst elements_match.simps) simp
      also have "\<dots> \<longleftrightarrow> (\<forall>j. Suc i \<le> j \<and> j < length this \<longrightarrow> \<bar>this ! j - other ! j\<bar> \<le> eps)"
        using "1.IH" True le by simp
      also have "\<dots> \<longleftrightarrow> (\<forall>j. i \<le> j \<and> j < length this \<longrightarrow> \<bar>this ! j - other ! j\<bar> \<le> eps)"
        using le by (metis Suc_leI le_neq_implies_less not_less_eq_eq not_le Suc_le_lessD le_less)
      finally show ?thesis .
    qed
  qed
qed

lemma operator_eq_iff:
  "operator_eq a b \<longleftrightarrow>
     \<not> real (unat (size_difference (length a) (length b))) > eps
     \<and> (\<forall>i<length a. \<bar>a ! i - b ! i\<bar> \<le> eps)"
  by (simp add: operator_eq_def elements_match_iff)

lemma operator_eq_sized:
  "length a < 2 ^ 64 \<Longrightarrow> length b < 2 ^ 64 \<Longrightarrow>
   operator_eq a b \<longleftrightarrow> length a = length b \<and> (\<forall>i<length a. \<bar>a ! i - b ! i\<bar> \<le> eps)"
  by (simp add: operator_eq_iff size_check_unsigned size_difference_zero)

subsection \<open>\<open>find_pu_vector\<close> on the first unit vector\<close>

lemma sqrt_25: "sqrt 25 = 5"
  by (rule real_sqrt_unique) simp_all

lemma normalize_unit: "normalize sqrt [1, 0, 0 :: real] = (Inr (), [1, 0, 0])"
  by (simp add: normalize_eq sum_of_squares_def)

lemma difference_unit:
  fixes distribution :: "real \<Rightarrow> real \<Rightarrow> 'g \<Rightarrow> real \<times> 'g"
  assumes "Vector_random FloatingPoint distribution gen 3 (- 1) 1 = Inr [b0, b1, b2]"
  shows "difference FloatingPoint sqrt distribution gen [1, 0, 0] = Inr [0, b1, b2]"
  using assms
  by (simp add: difference_def Vector_copy_eq normalize_unit Get_Dim_def numeral_3_eq_3
      operator_times_eq operator_minus_eq)

lemma unit_after_normalize:
  fixes b1 b2 :: real
  assumes "b1 \<noteq> 0 \<or> b2 \<noteq> 0"
  shows "sum_of_squares [0, b1, b2] \<noteq> 0"
    and "euclidean_norm (map (\<lambda>x. x / sqrt (sum_of_squares [0, b1, b2])) [0, b1, b2]) = 1"
proof -
  let ?s = "b1 * b1 + b2 * b2"
  have s: "sum_of_squares [0, b1, b2] = ?s"
    by (simp add: sum_of_squares_def)
  have pos: "0 < ?s"
    using assms by (metis add_pos_nonneg add_nonneg_pos zero_le_square not_real_square_gt_zero)
  from pos s show "sum_of_squares [0, b1, b2] \<noteq> 0"
    by linarith
  have root: "sqrt ?s * sqrt ?s = ?s"
    using pos by simp
  have "(b1 / sqrt ?s) * (b1 / sqrt ?s) + (b2 / sqrt ?s) * (b2 / sqrt ?s)
        = ?s / (sqrt ?s * sqrt ?s)"
    by (simp only: times_divide_times_eq add_divide_distrib)
  also have "\<dots> = ?s / ?s"
    by (simp only: root)
  also have "\<dots> = 1"
    using pos by (intro divide_self) linarith
  finally have one: "(b1 / sqrt ?s) * (b1 / sqrt ?s) + (b2 / sqrt ?s) * (b2 / sqrt ?s) = 1" .
  have "sum_of_squares (map (\<lambda>x. x / sqrt ?s) [0, b1, b2])
        = (b1 / sqrt ?s) * (b1 / sqrt ?s) + (b2 / sqrt ?s) * (b2 / sqrt ?s)"
    by (simp add: sum_of_squares_def)
  with one show "euclidean_norm (map (\<lambda>x. x / sqrt (sum_of_squares [0, b1, b2])) [0, b1, b2]) = 1"
    by (simp only: euclidean_norm_def s real_sqrt_one)
qed

subsection \<open>\<open>find_pu_vector\<close> at \<open>T = int\<close>\<close>

lemma sqrt_int_1: "sqrt_int 1 = 1"
  by (simp add: sqrt_int_def)

lemma sqrt_2_bounds: "1 < sqrt 2" "sqrt 2 < 2"
proof -
  show "1 < sqrt 2" by simp
  have "sqrt 2 < sqrt 4" by (simp only: real_sqrt_less_iff)
  then show "sqrt 2 < 2" by simp
qed

lemma sqrt_int_2: "sqrt_int 2 = 1"
  unfolding sqrt_int_def using sqrt_2_bounds by (simp add: floor_eq_iff)

lemma sqrt_quarter: "sqrt (1 / 4) = 1 / 2"
  by (rule real_sqrt_unique) (simp_all add: power2_eq_square)

lemma find_pu_vector_int:
  "Vector_random Integral replay [0, 1, - 1] 3 (- 1) 1 = Inr [0, 1, - 1 :: int]"
  "difference Integral sqrt_int replay [0, 1, - 1] [1, 0, 0] = Inr [0, 1, - 1]"
  "find_pu_vector Integral sqrt_int replay [0, 1, - 1] [1, 0, 0] = Inr [0, 1, - 1]"
proof -
  show draw: "Vector_random Integral replay [0, 1, - 1] 3 (- 1) 1 = Inr [0, 1, - 1 :: int]"
    by (simp add: Vector_random_def replay_def new_array_def numeral_3_eq_3)
  have unit: "normalize sqrt_int [1, 0, 0] = (Inr (), [1, 0, 0])"
    by (simp add: normalize_eq sum_of_squares_def sqrt_int_1)
  show diff: "difference Integral sqrt_int replay [0, 1, - 1] [1, 0, 0] = Inr [0, 1, - 1]"
    using draw
    by (simp add: difference_def Vector_copy_eq unit Get_Dim_def numeral_3_eq_3
        operator_times_eq operator_minus_eq)
  show "find_pu_vector Integral sqrt_int replay [0, 1, - 1] [1, 0, 0] = Inr [0, 1, - 1]"
    by (simp add: find_pu_vector_def diff normalize_eq sum_of_squares_def sqrt_int_2)
qed

lemma norm_int: "euclidean_norm (map real_of_int [0, 1, - 1]) = sqrt 2"
  by (simp add: euclidean_norm_def sum_of_squares_def)

subsection \<open>\<open>find_pu_vector\<close> in the store\<close>

text \<open>
  Every write and every release inside \<open>find_pu_vector\<close> is at an address allocated
  inside it: the cells that existed before are the same afterwards, whatever the outcome.
\<close>

lemma find_pu_vector_mem_frame:
  assumes "find_pu_vector_mem kind sqrtT distribution gen a h = (outcome, h')"
  shows "length h \<le> length h' \<and> (\<forall>p<length h. h' ! p = h ! p)"
  using assms
  unfolding find_pu_vector_mem_def Vector_copy_mem_def normalize_mem_def Vector_random_mem_def
    operator_times_mem_def operator_minus_mem_def destructor_def new_buffer_def delete_buffer_def
    write_content_def
  by (auto split: prod.splits sum.splits simp: nth_append nth_list_update)

text \<open>
  The function in the store computes what the function on values computes: the same
  exception, or an object whose buffer holds the same vector.
\<close>

lemma find_pu_vector_mem_value:
  assumes "owns h a"
  shows "case find_pu_vector_mem kind sqrtT distribution gen a h of
           (Inl e, h') \<Rightarrow> find_pu_vector kind sqrtT distribution gen (content h a) = Inl e
         | (Inr r, h') \<Rightarrow>
             find_pu_vector kind sqrtT distribution gen (content h a) = Inr (content h' r)"
  using assms
  unfolding find_pu_vector_mem_def Vector_copy_mem_def normalize_mem_def Vector_random_mem_def
    operator_times_mem_def operator_minus_mem_def destructor_def new_buffer_def delete_buffer_def
    find_pu_vector_def difference_def owns_def content_def write_content_def Get_Dim_def
  by (auto split: prod.splits sum.splits option.splits
      simp: nth_append nth_list_update Vector_copy_eq)

subsection \<open>The operators in the store\<close>

text \<open>An operator that returns a new vector leaves every existing buffer as it was.\<close>

lemma operator_plus_mem_frame:
  "\<forall>p<length h. snd (operator_plus_mem a b h) ! p = h ! p"
  by (auto simp: operator_plus_mem_def new_buffer_def nth_append split: sum.splits)

lemma operator_minus_mem_frame:
  "\<forall>p<length h. snd (operator_minus_mem a b h) ! p = h ! p"
  by (auto simp: operator_minus_mem_def new_buffer_def nth_append split: sum.splits)

lemma operator_times_mem_frame:
  "\<forall>p<length h. snd (operator_times_mem a b h) ! p = h ! p"
  by (auto simp: operator_times_mem_def new_buffer_def nth_append split: sum.splits)

lemma operator_div_mem_frame:
  "\<forall>p<length h. snd (operator_div_mem a s h) ! p = h ! p"
  by (auto simp: operator_div_mem_def new_buffer_def nth_append split: sum.splits)

text \<open>When \<open>normalize()\<close> throws, the store is what it was.\<close>

lemma normalize_mem_zero:
  fixes h :: "'a::{comm_monoid_add,times,divide} store"
  assumes "owns h v" and "fst (normalize_mem sqrtT v h) = Inl ZeroVector"
  shows "snd (normalize_mem sqrtT v h) = h"
proof (cases "v_elem v")
  case None
  then show ?thesis
    by (simp add: normalize_mem_def write_content_def split: prod.splits)
next
  case (Some p)
  then obtain buf where buf: "h ! p = Some buf"
    using assms(1) by (auto simp: owns_def split: option.splits)
  then have c: "content h v = buf"
    using Some by (simp add: content_def)
  have "sum_of_squares buf = 0"
    using assms(2) by (simp add: normalize_mem_def normalize_eq c split: if_splits)
  then have "snd (normalize_mem sqrtT v h) = h[p := h ! p]"
    using Some by (simp add: normalize_mem_def write_content_def normalize_eq c buf)
  then show ?thesis
    by simp
qed

subsection \<open>Equality at \<open>double\<close>\<close>

lemma elements_match_double_iff:
  "elements_match_double a b i \<longleftrightarrow>
     (\<forall>j. i \<le> j \<and> j < length a \<longrightarrow>
          \<not> double_greater (double_abs (double_minus (a ! j) (b ! j))) eps_double)"
proof (induction a b i rule: elements_match_double.induct)
  case (1 this other i)
  show ?case
  proof (cases "i < length this")
    case False
    then show ?thesis by (subst elements_match_double.simps) auto
  next
    case True
    show ?thesis
    proof (cases "double_greater (double_abs (double_minus (this ! i) (other ! i))) eps_double")
      case gt: True
      then have "\<not> elements_match_double this other i"
        using True by (subst elements_match_double.simps) simp
      moreover have "\<not> (\<forall>j. i \<le> j \<and> j < length this \<longrightarrow>
          \<not> double_greater (double_abs (double_minus (this ! j) (other ! j))) eps_double)"
        using True gt by (auto intro!: exI [of _ i])
      ultimately show ?thesis by blast
    next
      case le: False
      then have "elements_match_double this other i = elements_match_double this other (Suc i)"
        using True by (subst elements_match_double.simps) simp
      also have "\<dots> \<longleftrightarrow> (\<forall>j. Suc i \<le> j \<and> j < length this \<longrightarrow>
          \<not> double_greater (double_abs (double_minus (this ! j) (other ! j))) eps_double)"
        using "1.IH" True le by simp
      also have "\<dots> \<longleftrightarrow> (\<forall>j. i \<le> j \<and> j < length this \<longrightarrow>
          \<not> double_greater (double_abs (double_minus (this ! j) (other ! j))) eps_double)"
        using le by (metis Suc_leI le_neq_implies_less not_less_eq_eq not_le Suc_le_lessD le_less)
      finally show ?thesis .
    qed
  qed
qed

lemma operator_eq_double_iff:
  "operator_eq_double a b \<longleftrightarrow>
     \<not> real (unat (size_difference (length a) (length b))) > eps
     \<and> (\<forall>i<length a.
           \<not> double_greater (double_abs (double_minus (a ! i) (b ! i))) eps_double)"
  by (simp add: operator_eq_double_def elements_match_double_iff)

subsection \<open>Rounding\<close>

lemma bit_length_le: "n < 2 ^ k \<Longrightarrow> bit_length n \<le> k"
proof (induction k arbitrary: n)
  case 0
  then show ?case by (subst bit_length.simps) simp
next
  case (Suc k)
  show ?case
  proof (cases "n = 0")
    case True
    then show ?thesis by (subst bit_length.simps) simp
  next
    case False
    have "n div 2 < 2 ^ k"
      using Suc.prems by simp
    then have "bit_length (n div 2) \<le> k"
      by (rule Suc.IH)
    then show ?thesis
      using False by (subst bit_length.simps) simp
  qed
qed

lemma bit_length_eq: "2 ^ k \<le> n \<Longrightarrow> n < 2 ^ Suc k \<Longrightarrow> bit_length n = Suc k"
proof (induction k arbitrary: n)
  case 0
  then have n: "n = Suc 0" by simp
  have "bit_length (Suc 0) = Suc (bit_length 0)"
    by (subst bit_length.simps) simp
  also have "bit_length 0 = 0"
    by (subst bit_length.simps) simp
  finally show ?case
    using n by simp
next
  case (Suc k)
  then have n: "n \<noteq> 0" by auto
  have "(2::nat) ^ k \<le> n div 2" "n div 2 < 2 ^ Suc k"
    using Suc.prems by simp_all
  then have "bit_length (n div 2) = Suc k"
    by (rule Suc.IH)
  then show ?case
    using n by (subst bit_length.simps) simp
qed

lemma round_nearest_even_0: "round_nearest_even n 0 = n"
  by (simp add: round_nearest_even_def)

text \<open>A result that has a \<open>double\<close> form is kept as it is.\<close>

lemma round_to_double_exact:
  assumes "\<bar>M\<bar> < 2 ^ 53" and "e \<le> 971"
  shows "round_to_double M e = Finite M e"
proof -
  have "nat \<bar>M\<bar> < 2 ^ 53"
    using assms(1) by (simp add: nat_less_iff)
  then have b: "bit_length (nat \<bar>M\<bar>) \<le> 53"
    by (rule bit_length_le)
  then have s: "bit_length (nat \<bar>M\<bar>) - 53 = 0"
    by simp
  have "sgn M * int (nat \<bar>M\<bar>) = M"
    by (simp add: mult_sgn_abs)
  then show ?thesis
    using b assms(2) by (simp add: round_to_double_def s round_nearest_even_0 Let_def)
qed

subsection \<open>The numbers behind the operations\<close>

lemma value_of_powr: "value_of m e = of_int m * 2 powr (of_int e)"
proof (cases "0 \<le> e")
  case True
  then have "(2::real) powr (of_int e) = 2 ^ nat e"
    by (simp add: powr_int)
  then show ?thesis
    using True by (simp add: value_of_def)
next
  case False
  then have "(2::real) powr (of_int e) = 1 / 2 ^ nat (- e)"
    by (simp add: powr_int)
  then show ?thesis
    using False by (simp add: value_of_def)
qed

lemma aligned_value:
  assumes "e \<le> e1"
  shows "real_of_int (m * 2 ^ nat (e1 - e)) * 2 powr (of_int e) = value_of m e1"
proof -
  have "(2::real) ^ nat (e1 - e) = 2 powr (of_int (e1 - e))"
    using assms powr_int [of 2 "e1 - e"] by simp
  then have "(2::real) ^ nat (e1 - e) * 2 powr (of_int e) = 2 powr (of_int e1)"
    by (simp add: powr_add [symmetric])
  then show ?thesis
    by (simp add: value_of_powr mult.assoc)
qed

lemma double_greater_value:
  "double_greater (Finite m1 e1) (Finite m2 e2) \<longleftrightarrow> value_of m1 e1 > value_of m2 e2"
proof -
  let ?e = "min e1 e2"
  let ?a = "m1 * 2 ^ nat (e1 - ?e)" and ?b = "m2 * 2 ^ nat (e2 - ?e)"
  have pos: "(0::real) < 2 powr (of_int ?e)"
    by simp
  have "double_greater (Finite m1 e1) (Finite m2 e2) \<longleftrightarrow> ?b < ?a"
    by (simp add: Let_def)
  also have "\<dots> \<longleftrightarrow> real_of_int ?b < real_of_int ?a"
    by (simp only: of_int_less_iff)
  also have "\<dots> \<longleftrightarrow> real_of_int ?b * 2 powr (of_int ?e) < real_of_int ?a * 2 powr (of_int ?e)"
    using pos by (simp only: mult_less_cancel_right_pos)
  also have "\<dots> \<longleftrightarrow> value_of m2 e2 < value_of m1 e1"
    by (simp only: aligned_value [OF min.cobounded1] aligned_value [OF min.cobounded2])
  finally show ?thesis .
qed

lemma double_minus_exact:
  assumes "\<bar>m1 * 2 ^ nat (e1 - min e1 e2) - m2 * 2 ^ nat (e2 - min e1 e2)\<bar> < 2 ^ 53"
    and "min e1 e2 \<le> 971"
  shows "\<exists>m e. double_minus (Finite m1 e1) (Finite m2 e2) = Finite m e
           \<and> value_of m e = value_of m1 e1 - value_of m2 e2"
proof -
  let ?e = "min e1 e2"
  let ?M = "m1 * 2 ^ nat (e1 - ?e) - m2 * 2 ^ nat (e2 - ?e)"
  have "double_minus (Finite m1 e1) (Finite m2 e2) = Finite ?M ?e"
    using round_to_double_exact [OF assms] by (simp add: Let_def)
  moreover have "value_of ?M ?e = value_of m1 e1 - value_of m2 e2"
  proof -
    have "value_of ?M ?e = real_of_int ?M * 2 powr (of_int ?e)"
      by (rule value_of_powr)
    also have "\<dots> = real_of_int (m1 * 2 ^ nat (e1 - ?e)) * 2 powr (of_int ?e)
                    - real_of_int (m2 * 2 ^ nat (e2 - ?e)) * 2 powr (of_int ?e)"
      by (simp only: of_int_diff left_diff_distrib)
    also have "\<dots> = value_of m1 e1 - value_of m2 e2"
      by (simp only: aligned_value [OF min.cobounded1] aligned_value [OF min.cobounded2])
    finally show ?thesis .
  qed
  ultimately show ?thesis by blast
qed

lemma value_of_abs: "value_of \<bar>m\<bar> e = \<bar>value_of m e\<bar>"
  by (simp add: value_of_powr abs_mult)

lemma value_of_eps: "value_of 5902958103587057 (- 69) = eps"
  by (simp add: value_of_def eps_def)

text \<open>
  Where the exact difference of two finite elements has a \<open>double\<close> form, the test of
  line 164 is the comparison of that difference with \<open>eps\<close>.
\<close>

lemma exact_test:
  assumes "\<bar>m1 * 2 ^ nat (e1 - min e1 e2) - m2 * 2 ^ nat (e2 - min e1 e2)\<bar> < 2 ^ 53"
    and "min e1 e2 \<le> 971"
  shows "double_greater (double_abs (double_minus (Finite m1 e1) (Finite m2 e2))) eps_double
         \<longleftrightarrow> \<bar>value_of m1 e1 - value_of m2 e2\<bar> > eps"
proof -
  obtain m e where d: "double_minus (Finite m1 e1) (Finite m2 e2) = Finite m e"
      "value_of m e = value_of m1 e1 - value_of m2 e2"
    using double_minus_exact [OF assms] by blast
  show ?thesis
    by (simp only: d(1) double_abs.simps eps_double_def double_greater_value value_of_abs
        d(2) value_of_eps)
qed

subsection \<open>Symmetry\<close>

lemma round_to_double_abs: "double_abs (round_to_double (- M) e) = double_abs (round_to_double M e)"
  by (simp add: round_to_double_def Let_def)

lemma double_minus_commute_abs:
  "double_abs (double_minus x y) = double_abs (double_minus y x)"
proof (cases x; cases y)
  fix m1 e1 m2 e2
  assume x: "x = Finite m1 e1" and y: "y = Finite m2 e2"
  have "m2 * 2 ^ nat (e2 - min e1 e2) - m1 * 2 ^ nat (e1 - min e1 e2)
        = - (m1 * 2 ^ nat (e1 - min e1 e2) - m2 * 2 ^ nat (e2 - min e1 e2))"
    by simp
  then show ?thesis
    unfolding x y by (simp only: double_minus.simps Let_def min.commute [of e2 e1] round_to_double_abs)
qed auto

lemma operator_eq_double_sym:
  assumes "length a < 2 ^ 64" and "length b < 2 ^ 64"
  shows "operator_eq_double a b = operator_eq_double b a"
  using assms
  by (auto simp: operator_eq_double_iff size_check_unsigned size_difference_zero
      double_minus_commute_abs)

subsection \<open>Examples of the test of line 164\<close>

text \<open>\<open>1.0 - 1.00001\<close>: the difference is exact, and larger than \<open>eps\<close>.\<close>

lemma test_boundary:
  "double_greater (double_abs (double_minus (Finite 1 0) (Finite 2251822331683385 (- 51))))
     eps_double"
proof -
  have "\<bar>value_of 1 0 - value_of 2251822331683385 (- 51)\<bar> > eps"
    by (simp add: value_of_def eps_def)
  then show ?thesis
    by (subst exact_test) simp_all
qed

text \<open>
  \<open>1.0E-5 - (-0x1p-80)\<close>: the exact difference exceeds \<open>eps\<close>, the computed one is
  \<open>eps\<close>.
\<close>

lemma minus_rounds_to_eps:
  "double_minus (Finite 5902958103587057 (- 69)) (Finite (- 1) (- 80))
     = Finite 5902958103587057 (- 69)"
proof -
  have n: "bit_length 12089258196146292737 = 64"
    using bit_length_eq [of 63 12089258196146292737] by simp
  have q: "bit_length 5902958103587057 = 53"
    using bit_length_eq [of 52 5902958103587057] by simp
  have r: "round_nearest_even 12089258196146292737 11 = 5902958103587057"
    by (simp add: round_nearest_even_def Let_def)
  have "round_to_double 12089258196146292737 (- 80) = Finite 5902958103587057 (- 69)"
    by (simp add: round_to_double_def Let_def n r q)
  then show ?thesis
    by (simp add: Let_def)
qed

lemma test_rounded: 
  "\<not> double_greater
       (double_abs (double_minus (Finite 5902958103587057 (- 69)) (Finite (- 1) (- 80))))
       eps_double"
  by (simp only: minus_rounds_to_eps) (simp add: eps_double_def)

lemma test_nan: "\<not> double_greater (double_abs (double_minus NaN (Finite 1 0))) eps_double"
  by (simp add: eps_double_def)

lemma test_half:
  "double_greater (double_abs (double_minus (Finite 1 0) (Finite 3 (- 1)))) eps_double"
proof -
  have "\<bar>value_of 1 0 - value_of 3 (- 1)\<bar> > eps"
    by (simp add: value_of_def eps_def)
  then show ?thesis
    by (subst exact_test) simp_all
qed

lemma operator_eq_double_boundary:
  "\<not> operator_eq_double [Finite 1 0, Finite 2 0, Finite 3 0]
        [Finite 2251822331683385 (- 51), Finite 2 0, Finite 3 0]"
proof -
  have "\<not> (\<forall>i<length [Finite 1 0, Finite 2 0, Finite 3 0].
          \<not> double_greater (double_abs (double_minus ([Finite 1 0, Finite 2 0, Finite 3 0] ! i)
              ([Finite 2251822331683385 (- 51), Finite 2 0, Finite 3 0] ! i))) eps_double)"
    using test_boundary by (auto intro!: exI [of _ 0])
  then show ?thesis
    by (simp only: operator_eq_double_iff) simp
qed

lemma operator_eq_double_sizes_differ:
  "\<not> operator_eq_double [Finite 1 0, Finite 2 0] [Finite 1 0, Finite 2 0, Finite 3 0]"
  by (simp add: operator_eq_double_iff size_check_unsigned size_difference_zero)

section \<open>Claims\<close>

text \<open>
  C1, as amended. \<open>find_pu_vector\<close> at a floating-point \<open>T\<close>, applied to the vector
  \<open>[1, 0, 0]\<close>. Let \<open>b\<close> be the vector that the random constructor draws, of length 3
  and with components between \<open>-1\<close> and \<open>1\<close>, and let the difference \<open>b - project\<close> of
  line 240 not be the zero vector. Then \<open>find_pu_vector\<close> returns a vector whose
  Euclidean norm is within \<open>1e-5\<close> of 1 and whose dot product with \<open>[1, 0, 0]\<close>
  normalised is within \<open>1e-5\<close> of 0. (On the reals both quantities are exactly 1 and 0.)
\<close>

theorem find_pu_vector_unit_orthogonal:
  fixes distribution :: "real \<Rightarrow> real \<Rightarrow> 'g \<Rightarrow> real \<times> 'g"
  assumes "Vector_random FloatingPoint distribution gen 3 (- 1) 1 = Inr b"
    and "\<forall>x\<in>set b. - 1 \<le> x \<and> x \<le> 1"
    and "difference FloatingPoint sqrt distribution gen [1, 0, 0] \<noteq> Inr [0, 0, 0]"
  shows "\<exists>o'. find_pu_vector FloatingPoint sqrt distribution gen [1, 0, 0] = Inr o'
            \<and> \<bar>euclidean_norm o' - 1\<bar> \<le> 1 / 100000
            \<and> \<bar>dot o' (snd (normalize sqrt [1, 0, 0]))\<bar> \<le> 1 / 100000"
proof -
  have "length b = 3"
    using assms(1) by (rule Vector_random_length)
  then obtain b0 b1 b2 where b: "b = [b0, b1, b2]"
    by (auto simp: length_Suc_conv numeral_3_eq_3)
  have d: "difference FloatingPoint sqrt distribution gen [1, 0, 0] = Inr [0, b1, b2]"
    using assms(1) unfolding b by (rule difference_unit)
  with assms(3) have nz: "b1 \<noteq> 0 \<or> b2 \<noteq> 0"
    by auto
  let ?o = "map (\<lambda>x. x / sqrt (sum_of_squares [0, b1, b2])) [0, b1, b2]"
  have "find_pu_vector FloatingPoint sqrt distribution gen [1, 0, 0] = Inr ?o"
    using unit_after_normalize(1) [OF nz] by (simp add: find_pu_vector_def d normalize_eq)
  moreover have "euclidean_norm ?o = 1"
    using nz by (rule unit_after_normalize(2))
  moreover have "dot ?o (snd (normalize sqrt [1, 0, 0])) = 0"
    by (simp add: normalize_unit dot_def)
  ultimately show ?thesis
    by simp
qed

theorem find_pu_vector_unit_orthogonal_witness:
  "Vector_random FloatingPoint replay [1 / 2, 3 / 10, 2 / 5] 3 (- 1) 1
     = Inr [1 / 2, 3 / 10, 2 / 5 :: real]
   \<and> list_all (\<lambda>x. - 1 \<le> x \<and> x \<le> 1) [1 / 2, 3 / 10, 2 / 5 :: real]
   \<and> difference FloatingPoint sqrt replay [1 / 2, 3 / 10, 2 / 5] [1, 0, 0]
       = Inr [0, 3 / 10, 2 / 5]
   \<and> find_pu_vector FloatingPoint sqrt replay [1 / 2, 3 / 10, 2 / 5] [1, 0, 0]
       = Inr [0, 3 / 5, 4 / 5]
   \<and> euclidean_norm [0, 3 / 5, 4 / 5] = 1
   \<and> dot [0, 3 / 5, 4 / 5] (snd (normalize sqrt [1, 0, 0])) = 0"
proof -
  have draw: "Vector_random FloatingPoint replay [1 / 2, 3 / 10, 2 / 5] 3 (- 1) 1
     = Inr [1 / 2, 3 / 10, 2 / 5 :: real]"
    by (simp add: Vector_random_def replay_def new_array_def numeral_3_eq_3)
  have range: "\<forall>x\<in>set [1 / 2, 3 / 10, 2 / 5 :: real]. - 1 \<le> x \<and> x \<le> 1"
    by simp
  have diff: "difference FloatingPoint sqrt replay [1 / 2, 3 / 10, 2 / 5] [1, 0, 0]
       = Inr [0, 3 / 10, 2 / 5]"
    by (rule difference_unit [OF draw])
  have nonzero: "difference FloatingPoint sqrt replay [1 / 2, 3 / 10, 2 / 5] [1, 0, 0]
       \<noteq> Inr [0, 0, 0 :: real]"
    by (simp add: diff)
  have squares: "sum_of_squares [0, 3 / 10, 2 / 5 :: real] = 1 / 4"
    by (simp add: sum_of_squares_def)
  have run: "find_pu_vector FloatingPoint sqrt replay [1 / 2, 3 / 10, 2 / 5] [1, 0, 0]
       = Inr [0, 3 / 5, 4 / 5]"
    by (simp add: find_pu_vector_def diff normalize_eq squares sqrt_quarter)
  obtain o' where o: "find_pu_vector FloatingPoint sqrt replay [1 / 2, 3 / 10, 2 / 5] [1, 0, 0]
       = Inr o'" "\<bar>euclidean_norm o' - 1\<bar> \<le> 1 / 100000"
    using find_pu_vector_unit_orthogonal [OF draw range nonzero] by blast
  have norm: "euclidean_norm [0, 3 / 5, 4 / 5] = 1"
    by (simp add: euclidean_norm_def sum_of_squares_def)
  have orth: "dot [0, 3 / 5, 4 / 5] (snd (normalize sqrt [1, 0, 0])) = 0"
    by (simp add: normalize_unit dot_def)
  show ?thesis
    using draw diff run norm orth o by simp
qed

text \<open>
  C1 as it was stated, for every element type, fails at \<open>T = int\<close>: there the length
  of the difference \<open>[0, 1, -1]\<close> is \<open>sqrt 2\<close> truncated to 1, the division by it changes
  nothing, and the vector returned has norm \<open>sqrt 2\<close>. (The draw is one that
  \<open>std::uniform_int_distribution<int>(-1, 1)\<close> can make; every division here is by 1,
  where the division of C++ and that of the model agree.)
\<close>

theorem find_pu_vector_int_counterexample:
  "Vector_random Integral replay [0, 1, - 1] 3 (- 1) 1 = Inr [0, 1, - 1 :: int]
   \<and> difference Integral sqrt_int replay [0, 1, - 1] [1, 0, 0] = Inr [0, 1, - 1]
   \<and> find_pu_vector Integral sqrt_int replay [0, 1, - 1] [1, 0, 0] = Inr [0, 1, - 1]
   \<and> \<not> \<bar>euclidean_norm (map real_of_int [0, 1, - 1]) - 1\<bar> \<le> 1 / 100000"
proof -
  have "(14 / 10)\<^sup>2 \<le> (2::real)"
    by (simp add: power2_eq_square)
  then have "14 / 10 \<le> sqrt 2"
    by (rule real_le_rsqrt)
  then have "\<not> \<bar>sqrt 2 - 1\<bar> \<le> 1 / 100000"
    by simp
  then show ?thesis
    by (simp only: find_pu_vector_int norm_int simp_thms)
qed

text \<open>
  C2. \<open>normalize()\<close> at a floating-point \<open>T\<close>: when the sum of the squares of the
  elements is not zero, the method returns normally and has divided every element of the
  vector by the square root of that sum; on \<open>[3, 4]\<close> the result has two elements,
  within \<open>1e-5\<close> of \<open>0.6\<close> and of \<open>0.8\<close>.
\<close>

theorem normalize_divides:
  fixes v :: "real Vector"
  shows "(sum_of_squares v \<noteq> 0 \<longrightarrow>
            normalize sqrt v = (Inr (), map (\<lambda>x. x / sqrt (sum_of_squares v)) v))
       \<and> (\<exists>r. normalize sqrt [3, 4] = (Inr (), r) \<and> length r = 2
              \<and> \<bar>r ! 0 - 6 / 10\<bar> \<le> 1 / 100000 \<and> \<bar>r ! 1 - 8 / 10\<bar> \<le> 1 / 100000)"
  by (simp add: normalize_eq) (simp add: sum_of_squares_def sqrt_25)

theorem normalize_divides_witness:
  "sum_of_squares [3, 4 :: real] \<noteq> 0 \<and> normalize sqrt [3, 4] = (Inr (), [3 / 5, 4 / 5])"
  using normalize_divides [of "[3, 4]"]
  by (simp add: sum_of_squares_def sqrt_25)

text \<open>
  C3, as amended, at \<open>T = double\<close>. \<open>a == b\<close> is true exactly when the size check passes
  (the wrapped difference of the sizes, as a number, does not exceed \<open>eps\<close>) and at every
  index the absolute value of the difference of the two elements, as the machine computes
  it (rounded to the nearest \<open>double\<close>; a NaN is not greater than \<open>eps\<close>), is not greater
  than \<open>eps\<close>, the \<open>double\<close> that \<open>1.0E-5\<close> denotes. For sizes that fit a \<open>size_t\<close> the size
  check passes exactly when the sizes are equal. Where the exact difference of two finite
  elements has a \<open>double\<close> form, the test at that index is that the two numbers differ
  by more than \<open>eps\<close>. \<open>[1.0, 2.0, 3.0] == [1.00001, 2.0, 3.0]\<close> is false: the literal
  \<open>1.00001\<close> denotes the \<open>double\<close> \<open>0x1.0000a7c5ac472p+0 = 2251822331683385 / 2^51\<close>, its
  difference from \<open>1.0\<close> is \<open>0x1.4f8b588e4p-17\<close>, itself a \<open>double\<close>, and this exceeds
  \<open>eps = 0x1.4f8b588e368f1p-17\<close>. \<open>[1.0, 2.0] == [1.0, 2.0, 3.0]\<close> is false, and \<open>!=\<close> is
  the negation of \<open>==\<close>.
\<close>

theorem operator_eq_tolerance:
  "(operator_eq_double a b \<longleftrightarrow>
      \<not> real (unat (size_difference (length a) (length b))) > eps
      \<and> (\<forall>i<length a.
            \<not> double_greater (double_abs (double_minus (a ! i) (b ! i))) eps_double))
   \<and> (length a < 2 ^ 64 \<and> length b < 2 ^ 64 \<longrightarrow>
        (\<not> real (unat (size_difference (length a) (length b))) > eps \<longleftrightarrow> length a = length b))
   \<and> (\<bar>m1 * 2 ^ nat (e1 - min e1 e2) - m2 * 2 ^ nat (e2 - min e1 e2)\<bar> < 2 ^ 53
        \<and> min e1 e2 \<le> 971 \<longrightarrow>
        (double_greater (double_abs (double_minus (Finite m1 e1) (Finite m2 e2))) eps_double
         \<longleftrightarrow> \<bar>value_of m1 e1 - value_of m2 e2\<bar> > eps))
   \<and> \<not> operator_eq_double [Finite 1 0, Finite 2 0, Finite 3 0]
          [Finite 2251822331683385 (- 51), Finite 2 0, Finite 3 0]
   \<and> \<not> operator_eq_double [Finite 1 0, Finite 2 0] [Finite 1 0, Finite 2 0, Finite 3 0]
   \<and> operator_neq_double a b = (\<not> operator_eq_double a b)"
proof (intro conjI)
  show "operator_eq_double a b \<longleftrightarrow>
      \<not> real (unat (size_difference (length a) (length b))) > eps
      \<and> (\<forall>i<length a.
            \<not> double_greater (double_abs (double_minus (a ! i) (b ! i))) eps_double)"
    by (rule operator_eq_double_iff)
  show "length a < 2 ^ 64 \<and> length b < 2 ^ 64 \<longrightarrow>
        (\<not> real (unat (size_difference (length a) (length b))) > eps \<longleftrightarrow> length a = length b)"
    by (simp add: size_check_unsigned size_difference_zero)
  show "\<bar>m1 * 2 ^ nat (e1 - min e1 e2) - m2 * 2 ^ nat (e2 - min e1 e2)\<bar> < 2 ^ 53
        \<and> min e1 e2 \<le> 971 \<longrightarrow>
        (double_greater (double_abs (double_minus (Finite m1 e1) (Finite m2 e2))) eps_double
         \<longleftrightarrow> \<bar>value_of m1 e1 - value_of m2 e2\<bar> > eps)"
    using exact_test [where ?m1.0 = m1 and ?e1.0 = e1 and ?m2.0 = m2 and ?e2.0 = e2] by blast
  show "\<not> operator_eq_double [Finite 1 0, Finite 2 0, Finite 3 0]
          [Finite 2251822331683385 (- 51), Finite 2 0, Finite 3 0]"
    by (rule operator_eq_double_boundary)
  show "\<not> operator_eq_double [Finite 1 0, Finite 2 0] [Finite 1 0, Finite 2 0, Finite 3 0]"
    by (rule operator_eq_double_sizes_differ)
  show "operator_neq_double a b = (\<not> operator_eq_double a b)"
    by (simp add: operator_neq_double_def)
qed

theorem operator_eq_tolerance_witness:
  "operator_eq_double [Finite 5902958103587057 (- 69)] [Finite (- 1) (- 80)]
   \<and> operator_eq_double [NaN] [Finite 1 0]
   \<and> \<not> operator_eq_double [Finite 1 0] [Finite 3 (- 1)]
   \<and> operator_neq_double [Finite 1 0] [Finite 3 (- 1)]
   \<and> \<not> operator_neq_double [NaN] [Finite 1 0]"
  using operator_eq_tolerance [of "[Finite 5902958103587057 (- 69)]" "[Finite (- 1) (- 80)]"]
    operator_eq_tolerance [of "[NaN]" "[Finite 1 0]"]
    operator_eq_tolerance [of "[Finite 1 0]" "[Finite 3 (- 1)]"]
    test_rounded test_nan test_half
  by (simp add: size_check_unsigned size_difference_zero del: double_minus.simps)

text \<open>
  The example of C3 as it was stated, \<open>[1.0, 2.0, 3.0] == [1.00001, 2.0, 3.0]\<close> is
  true, fails on the \<open>double\<close> values of the literals.
\<close>

theorem operator_eq_boundary_counterexample:
  "\<not> operator_eq_double [Finite 1 0, Finite 2 0, Finite 3 0]
        [Finite 2251822331683385 (- 51), Finite 2 0, Finite 3 0]"
  by (rule operator_eq_double_boundary)

text \<open>
  C4. \<open>normalize()\<close> throws the zero-vector error exactly when the sum of the squares
  of the elements is zero, and returns normally otherwise; the empty vector is such a
  vector. When it throws, the vector is what it was before the call, in size and in
  every element, and so is the store that holds its buffer: the test precedes the loop
  that writes.
\<close>

theorem normalize_zero_vector:
  fixes v :: "'a::{comm_monoid_add,times,divide} Vector" and h :: "'a store"
  shows "(fst (normalize sqrtT v) = Inl ZeroVector \<longleftrightarrow> sum_of_squares v = 0)
       \<and> (sum_of_squares v \<noteq> 0 \<longrightarrow> fst (normalize sqrtT v) = Inr ())
       \<and> (fst (normalize sqrtT v) = Inl ZeroVector \<longrightarrow> snd (normalize sqrtT v) = v)
       \<and> normalize sqrtT ([] :: 'a Vector) = (Inl ZeroVector, [])
       \<and> (owns h x \<and> fst (normalize_mem sqrtT x h) = Inl ZeroVector \<longrightarrow>
            snd (normalize_mem sqrtT x h) = h)"
proof -
  have "(fst (normalize sqrtT v) = Inl ZeroVector \<longleftrightarrow> sum_of_squares v = 0)
       \<and> (sum_of_squares v \<noteq> 0 \<longrightarrow> fst (normalize sqrtT v) = Inr ())
       \<and> (fst (normalize sqrtT v) = Inl ZeroVector \<longrightarrow> snd (normalize sqrtT v) = v)
       \<and> normalize sqrtT ([] :: 'a Vector) = (Inl ZeroVector, [])"
    by (simp add: normalize_eq) (simp add: sum_of_squares_def)
  then show ?thesis
    using normalize_mem_zero [of h x sqrtT] by blast
qed

theorem normalize_zero_vector_witness:
  "sum_of_squares [0, 0 :: real] = 0 \<and> normalize sqrt [0, 0 :: real] = (Inl ZeroVector, [0, 0])
   \<and> sum_of_squares [3, 4 :: real] \<noteq> 0 \<and> fst (normalize sqrt [3, 4 :: real]) = Inr ()
   \<and> owns [Some [0, 0 :: real]] \<lparr>v_elem = Some 0, v_size = 2\<rparr>
   \<and> normalize_mem sqrt \<lparr>v_elem = Some 0, v_size = 2\<rparr> [Some [0, 0 :: real]]
       = (Inl ZeroVector, [Some [0, 0]])"
proof -
  have live: "owns [Some [0, 0 :: real]] \<lparr>v_elem = Some 0, v_size = 2\<rparr>"
    by (simp add: owns_def)
  have thrown: "fst (normalize_mem sqrt \<lparr>v_elem = Some 0, v_size = 2\<rparr> [Some [0, 0 :: real]])
       = Inl ZeroVector"
    by (simp add: normalize_mem_def content_def write_content_def normalize_eq
        sum_of_squares_def)
  show ?thesis
    using normalize_zero_vector [of sqrt "[0, 0 :: real]" "[Some [0, 0]]" "\<lparr>v_elem = Some 0, v_size = 2\<rparr>"]
      normalize_zero_vector [of sqrt "[3, 4 :: real]"] live thrown
    by (simp add: sum_of_squares_def prod_eq_iff)
qed

text \<open>
  C5. Each of \<open>operator+\<close>, \<open>operator-\<close> and the elementwise \<open>operator*\<close> throws the
  dimension error exactly when the sizes of the two operands differ; when the sizes agree
  it returns a new vector of that size whose element at every index \<open>i\<close> is
  \<open>a[i] + b[i]\<close>, \<open>a[i] - b[i]\<close>, \<open>a[i] * b[i]\<close> respectively. The operands are
  unchanged: in the store, every buffer that was live before the call (those of the two
  operands among them) holds afterwards what it held before.
\<close>

theorem arithmetic_dimension_contract:
  fixes a b :: "'a::{zero,plus,minus,times} Vector" and h :: "'a store"
  shows "(operator_plus a b = Inl DimensionMismatch \<longleftrightarrow> length a \<noteq> length b)
       \<and> (operator_minus a b = Inl DimensionMismatch \<longleftrightarrow> length a \<noteq> length b)
       \<and> (operator_times a b = Inl DimensionMismatch \<longleftrightarrow> length a \<noteq> length b)
       \<and> (length a = length b \<longrightarrow>
            (\<exists>r. operator_plus a b = Inr r \<and> length r = length a
                 \<and> (\<forall>i<length a. r ! i = a ! i + b ! i))
          \<and> (\<exists>r. operator_minus a b = Inr r \<and> length r = length a
                 \<and> (\<forall>i<length a. r ! i = a ! i - b ! i))
          \<and> (\<exists>r. operator_times a b = Inr r \<and> length r = length a
                 \<and> (\<forall>i<length a. r ! i = a ! i * b ! i)))
       \<and> (\<forall>p<length h. h ! p \<noteq> None \<longrightarrow> snd (operator_plus_mem x y h) ! p = h ! p)
       \<and> (\<forall>p<length h. h ! p \<noteq> None \<longrightarrow> snd (operator_minus_mem x y h) ! p = h ! p)
       \<and> (\<forall>p<length h. h ! p \<noteq> None \<longrightarrow> snd (operator_times_mem x y h) ! p = h ! p)"
proof -
  have on_values: "(operator_plus a b = Inl DimensionMismatch \<longleftrightarrow> length a \<noteq> length b)
       \<and> (operator_minus a b = Inl DimensionMismatch \<longleftrightarrow> length a \<noteq> length b)
       \<and> (operator_times a b = Inl DimensionMismatch \<longleftrightarrow> length a \<noteq> length b)
       \<and> (length a = length b \<longrightarrow>
            (\<exists>r. operator_plus a b = Inr r \<and> length r = length a
                 \<and> (\<forall>i<length a. r ! i = a ! i + b ! i))
          \<and> (\<exists>r. operator_minus a b = Inr r \<and> length r = length a
                 \<and> (\<forall>i<length a. r ! i = a ! i - b ! i))
          \<and> (\<exists>r. operator_times a b = Inr r \<and> length r = length a
                 \<and> (\<forall>i<length a. r ! i = a ! i * b ! i)))"
  proof (cases "length a = length b")
    case True
    then show ?thesis
      by (simp add: operator_plus_eq operator_minus_eq operator_times_eq)
  next
    case False
    then show ?thesis
      by (simp add: operator_plus_def operator_minus_def operator_times_def)
  qed
  show ?thesis
    using on_values operator_plus_mem_frame [of h x y] operator_minus_mem_frame [of h x y]
      operator_times_mem_frame [of h x y]
    by blast
qed

theorem arithmetic_dimension_contract_witness:
  "length [1, 2, 3 :: int] = length [10, 20, 30 :: int]
   \<and> (\<exists>r. operator_plus [1, 2, 3 :: int] [10, 20, 30] = Inr r \<and> length r = 3
            \<and> r ! 0 = 11 \<and> r ! 1 = 22 \<and> r ! 2 = 33)
   \<and> (\<exists>r. operator_minus [1, 2, 3 :: int] [10, 20, 30] = Inr r \<and> length r = 3
            \<and> r ! 0 = - 9 \<and> r ! 1 = - 18 \<and> r ! 2 = - 27)
   \<and> (\<exists>r. operator_times [1, 2, 3 :: int] [10, 20, 30] = Inr r \<and> length r = 3
            \<and> r ! 0 = 10 \<and> r ! 1 = 40 \<and> r ! 2 = 90)
   \<and> operator_plus [1, 2 :: int] [10, 20, 30] = Inl DimensionMismatch
   \<and> operator_minus [1, 2 :: int] [10, 20, 30] = Inl DimensionMismatch
   \<and> operator_times [1, 2 :: int] [10, 20, 30] = Inl DimensionMismatch
   \<and> operator_plus_mem \<lparr>v_elem = Some 0, v_size = 3\<rparr> \<lparr>v_elem = Some 1, v_size = 3\<rparr>
         [Some [1, 2, 3 :: int], Some [10, 20, 30]]
       = (Inr \<lparr>v_elem = Some 2, v_size = 3\<rparr>,
          [Some [1, 2, 3], Some [10, 20, 30], Some [11, 22, 33]])"
proof -
  have store: "operator_plus_mem \<lparr>v_elem = Some 0, v_size = 3\<rparr> \<lparr>v_elem = Some 1, v_size = 3\<rparr>
         [Some [1, 2, 3 :: int], Some [10, 20, 30]]
       = (Inr \<lparr>v_elem = Some 2, v_size = 3\<rparr>,
          [Some [1, 2, 3], Some [10, 20, 30], Some [11, 22, 33]])"
    by (simp add: operator_plus_mem_def content_def new_buffer_def operator_plus_eq
        numeral_3_eq_3)
  show ?thesis
    using arithmetic_dimension_contract [of "[1, 2, 3 :: int]" "[10, 20, 30]"]
      arithmetic_dimension_contract [of "[1, 2 :: int]" "[10, 20, 30]"] store
    by (auto simp: less_Suc_eq numeral_3_eq_3 numeral_2_eq_2)
qed

text \<open>
  C6. \<open>operator/\<close> throws the division error exactly when the scalar equals \<open>T()\<close>, the
  zero of the element type, whatever the vector is (the empty vector included);
  otherwise it returns a new vector holding every element of \<open>v\<close> divided by the
  scalar. The vector \<open>v\<close> is unchanged: in the store, every buffer that was live before
  the call holds afterwards what it held before.
\<close>

theorem divide_contract:
  fixes v :: "'a::{zero,divide} Vector" and h :: "'a store"
  shows "(operator_div v s = Inl DivideByZero \<longleftrightarrow> s = 0)
       \<and> operator_div v 0 = Inl DivideByZero
       \<and> operator_div ([] :: 'a Vector) 0 = Inl DivideByZero
       \<and> (s \<noteq> 0 \<longrightarrow> operator_div v s = Inr (map (\<lambda>x. divide x s) v))
       \<and> (\<forall>p<length h. h ! p \<noteq> None \<longrightarrow> snd (operator_div_mem x s h) ! p = h ! p)"
proof -
  have "(operator_div v s = Inl DivideByZero \<longleftrightarrow> s = 0)
       \<and> operator_div v 0 = Inl DivideByZero
       \<and> operator_div ([] :: 'a Vector) 0 = Inl DivideByZero
       \<and> (s \<noteq> 0 \<longrightarrow> operator_div v s = Inr (map (\<lambda>x. divide x s) v))"
    by (simp add: operator_div_eq) (simp add: operator_div_def)
  then show ?thesis
    using operator_div_mem_frame [of h x s] by blast
qed

theorem divide_contract_witness:
  "operator_div [6, 9 :: real] 3 = Inr [2, 3]
   \<and> operator_div [6, 9 :: real] 0 = Inl DivideByZero
   \<and> operator_div_mem \<lparr>v_elem = Some 0, v_size = 2\<rparr> 3 [Some [6, 9 :: real]]
       = (Inr \<lparr>v_elem = Some 1, v_size = 2\<rparr>, [Some [6, 9], Some [2, 3]])
   \<and> operator_div_mem \<lparr>v_elem = Some 0, v_size = 2\<rparr> 0 [Some [6, 9 :: real]]
       = (Inl DivideByZero, [Some [6, 9]])"
proof -
  have store: "operator_div_mem \<lparr>v_elem = Some 0, v_size = 2\<rparr> 3 [Some [6, 9 :: real]]
       = (Inr \<lparr>v_elem = Some 1, v_size = 2\<rparr>, [Some [6, 9], Some [2, 3]])"
    "operator_div_mem \<lparr>v_elem = Some 0, v_size = 2\<rparr> 0 [Some [6, 9 :: real]]
       = (Inl DivideByZero, [Some [6, 9]])"
    by (simp_all add: operator_div_mem_def content_def new_buffer_def operator_div_eq)
      (simp add: operator_div_def)
  show ?thesis
    using divide_contract [of "[6, 9 :: real]" 3] divide_contract [of "[6, 9 :: real]" 0] store
    by simp
qed

text \<open>
  C7. The random constructor at an integral or floating-point \<open>T\<close>, with bounds
  \<open>low_bound \<le> up_bound\<close>: whatever the state of the generator, it produces a vector of
  exactly \<open>size\<close> elements, each between the two bounds, both ends included. The
  distribution is the standard library's; that each of its draws lies between the
  bounds it was constructed from is its contract, \<open>within_bounds\<close>.
\<close>

theorem random_fill_within_bounds:
  fixes low up :: "'a::{zero,ord}"
  assumes "within_bounds distribution" and "low \<le> up"
    and "kind = Integral \<or> kind = FloatingPoint"
  shows "\<exists>v. Vector_random kind distribution gen n low up = Inr v \<and> length v = n
             \<and> (\<forall>i<n. low \<le> v ! i \<and> v ! i \<le> up)"
proof -
  have "kind \<noteq> Unsupported"
    using assms(3) by auto
  then show ?thesis
    using fold_draw_prefix [OF assms(1,2), of n "new_array n" gen]
      fold_draw_length [of distribution low up n "new_array n" gen]
    by (simp add: Vector_random_eq new_array_def)
qed

theorem random_fill_within_bounds_witness:
  "within_bounds (\<lambda>a b g :: int. (a + g mod (b - a + 1), g + 1)) \<and> (1::int) \<le> 6
   \<and> Vector_random Integral (\<lambda>a b g :: int. (a + g mod (b - a + 1), g + 1)) 7 3 1 6
       = Inr [2, 3, 4]"
proof -
  have contract: "within_bounds (\<lambda>a b g :: int. (a + g mod (b - a + 1), g + 1))"
    unfolding within_bounds_def
  proof (intro allI impI)
    fix a b g :: int
    assume "a \<le> b"
    then have "0 < b - a + 1" by simp
    then have "0 \<le> g mod (b - a + 1) \<and> g mod (b - a + 1) < b - a + 1"
      using pos_mod_sign [of "b - a + 1" g] pos_mod_bound [of "b - a + 1" g] by blast
    then show "a \<le> fst (a + g mod (b - a + 1), g + 1) \<and> fst (a + g mod (b - a + 1), g + 1) \<le> b"
      by simp
  qed
  have order: "(1::int) \<le> 6"
    by simp
  have run: "Vector_random Integral (\<lambda>a b g :: int. (a + g mod (b - a + 1), g + 1)) 7 3 1 6
       = Inr [2, 3, 4]"
    by (simp add: Vector_random_def new_array_def numeral_3_eq_3)
  obtain v where v: "Vector_random Integral (\<lambda>a b g :: int. (a + g mod (b - a + 1), g + 1)) 7 3 1 6
       = Inr v" "length v = 3" "\<forall>i<3. 1 \<le> v ! i \<and> v ! i \<le> 6"
    using random_fill_within_bounds [OF contract order, of Integral 7 3] by auto
  show ?thesis
    using contract order run v by simp
qed

text \<open>
  C8. \<open>operator[]\<close> throws the range error exactly when the index is at least the size
  of the vector; otherwise it returns the element stored at that very index.
\<close>

theorem subscript_contract:
  "(subscript v i = Inl IndexOutOfRange \<longleftrightarrow> i \<ge> length v)
   \<and> (i < length v \<longrightarrow> subscript v i = Inr (v ! i))"
  by (simp add: subscript_def)

theorem subscript_contract_witness:
  "subscript [7, 8, 9 :: int] 2 = Inr 9 \<and> subscript [7, 8, 9 :: int] 3 = Inl IndexOutOfRange"
  using subscript_contract [of "[7, 8, 9 :: int]" 2] subscript_contract [of "[7, 8, 9 :: int]" 3]
  by simp

text \<open>
  C9. \<open>find_pu_vector\<close> does not modify its argument. Whether the call returns or
  throws, the object \<open>a\<close> (whose fields the function cannot assign, \<open>a\<close> being a
  reference to \<open>const\<close>) still has a live buffer of \<open>_size\<close> elements afterwards, this
  buffer holds the elements it held before the call, and so does every other buffer
  that was live before the call.
\<close>

theorem find_pu_vector_preserves_argument:
  assumes "owns h a"
    and "find_pu_vector_mem kind sqrtT distribution gen a h = (outcome, h')"
  shows "owns h' a \<and> content h' a = content h a
       \<and> (\<forall>p<length h. h ! p \<noteq> None \<longrightarrow> h' ! p = h ! p)"
  using assms(1) find_pu_vector_mem_frame [OF assms(2)]
  by (auto simp: owns_def content_def split: option.splits)

theorem find_pu_vector_preserves_argument_witness:
  "owns [Some [1, 0, 0 :: real]] \<lparr>v_elem = Some 0, v_size = 3\<rparr>
   \<and> find_pu_vector_mem FloatingPoint sqrt (\<lambda>a b g. (hd g, tl g)) [0, 3 / 5, 4 / 5]
         \<lparr>v_elem = Some 0, v_size = 3\<rparr> [Some [1, 0, 0 :: real]]
       = (Inr \<lparr>v_elem = Some 5, v_size = 3\<rparr>,
          [Some [1, 0, 0], None, None, None, None, Some [0, 3 / 5, 4 / 5]])
   \<and> content [Some [1, 0, 0 :: real], None, None, None, None, Some [0, 3 / 5, 4 / 5]]
         \<lparr>v_elem = Some 0, v_size = 3\<rparr> = [1, 0, 0]
   \<and> owns [Some [0, 0 :: real]] \<lparr>v_elem = Some 0, v_size = 2\<rparr>
   \<and> find_pu_vector_mem FloatingPoint sqrt (\<lambda>a b g. (hd g, tl g)) [0, 3 / 5, 4 / 5]
         \<lparr>v_elem = Some 0, v_size = 2\<rparr> [Some [0, 0 :: real]]
       = (Inl ZeroVector, [Some [0, 0], None])
   \<and> owns [Some [7 :: real]] Vector_default
   \<and> find_pu_vector_mem FloatingPoint sqrt (\<lambda>a b g. (hd g, tl g)) [0, 3 / 5, 4 / 5]
         Vector_default [Some [7 :: real]]
       = (Inl ZeroVector, [Some [7], None])"
proof -
  have live: "owns [Some [1, 0, 0 :: real]] \<lparr>v_elem = Some 0, v_size = 3\<rparr>"
    by (simp add: owns_def)
  have run: "find_pu_vector_mem FloatingPoint sqrt (\<lambda>a b g. (hd g, tl g)) [0, 3 / 5, 4 / 5]
         \<lparr>v_elem = Some 0, v_size = 3\<rparr> [Some [1, 0, 0 :: real]]
       = (Inr \<lparr>v_elem = Some 5, v_size = 3\<rparr>,
          [Some [1, 0, 0], None, None, None, None, Some [0, 3 / 5, 4 / 5]])"
    by (simp add: find_pu_vector_mem_def Vector_copy_mem_def normalize_mem_def
        Vector_random_mem_def operator_times_mem_def operator_minus_mem_def destructor_def
        new_buffer_def delete_buffer_def content_def write_content_def Vector_copy_eq normalize_eq
        sum_of_squares_def Vector_random_def new_array_def numeral_3_eq_3
        operator_times_eq operator_minus_eq)
  have live0: "owns [Some [0, 0 :: real]] \<lparr>v_elem = Some 0, v_size = 2\<rparr>"
    by (simp add: owns_def)
  have run0: "find_pu_vector_mem FloatingPoint sqrt (\<lambda>a b g. (hd g, tl g)) [0, 3 / 5, 4 / 5]
         \<lparr>v_elem = Some 0, v_size = 2\<rparr> [Some [0, 0 :: real]]
       = (Inl ZeroVector, [Some [0, 0], None])"
    by (simp add: find_pu_vector_mem_def Vector_copy_mem_def normalize_mem_def
        destructor_def new_buffer_def delete_buffer_def content_def write_content_def
        Vector_copy_eq normalize_eq sum_of_squares_def)
  have empty: "owns [Some [7 :: real]] Vector_default"
    by (simp add: owns_def Vector_default_def)
  have run_empty: "find_pu_vector_mem FloatingPoint sqrt (\<lambda>a b g. (hd g, tl g)) [0, 3 / 5, 4 / 5]
         Vector_default [Some [7 :: real]]
       = (Inl ZeroVector, [Some [7], None])"
    by (simp add: find_pu_vector_mem_def Vector_copy_mem_def normalize_mem_def
        destructor_def new_buffer_def delete_buffer_def content_def write_content_def
        Vector_copy_eq normalize_eq sum_of_squares_def Vector_default_def)
  show ?thesis
    using find_pu_vector_preserves_argument [OF live run]
      find_pu_vector_preserves_argument [OF live0 run0]
      find_pu_vector_preserves_argument [OF empty run_empty]
      live run live0 run0 empty run_empty
    by (simp add: content_def)
qed

text \<open>
  C10. \<open>operator==\<close> is symmetric: for vectors whose sizes fit a \<open>size_t\<close>,
  \<open>a == b\<close> and \<open>b == a\<close> return the same value.
\<close>

theorem operator_eq_symmetric:
  assumes "length a < 2 ^ 64" and "length b < 2 ^ 64"
  shows "operator_eq a b = operator_eq b a"
  using assms by (auto simp: operator_eq_sized abs_minus_commute)

theorem operator_eq_symmetric_witness:
  "length [1, 2 :: real] < 2 ^ 64 \<and> length [1, 5 :: real] < 2 ^ 64
   \<and> operator_eq [1, 2] [1, 5] = operator_eq [1, 5] [1, 2]
   \<and> \<not> operator_eq [1, 2] [1, 5]"
proof -
  have a: "length [1, 2 :: real] < 2 ^ 64" and b: "length [1, 5 :: real] < 2 ^ 64"
    by simp_all
  have "\<not> operator_eq [1, 2] [1, 5]"
    by (auto simp: operator_eq_sized less_Suc_eq eps_def)
  then show ?thesis
    using operator_eq_symmetric [OF a b] a b by simp
qed

end
